theory Spec2Isabelle
  imports Main "HOL-Library.Code_Target_Nat"
begin

section \<open>JavaScript strings\<close>

text \<open>
  A JavaScript string is a sequence of UTF-16 code units. A code unit is modelled as a
  natural number (below 65536 in every string the program can receive); the functions
  below only ever compare code units with ASCII constants, so they are total on \<open>nat\<close>.
  \<open>lit\<close> turns an (ASCII) literal of the source into its code units.
\<close>

type_synonym jsstring = "nat list"

definition lit :: "string \<Rightarrow> jsstring" where
  "lit s = map of_char s"

definition is_digit :: "nat \<Rightarrow> bool" where
  "is_digit c \<longleftrightarrow> 48 \<le> c \<and> c \<le> 57"

text \<open>The class \<open>[a-f0-9]\<close> under the flag \<open>i\<close>: decimal digits, \<open>a\<close>-\<open>f\<close> and \<open>A\<close>-\<open>F\<close>.\<close>

definition is_hex_ci :: "nat \<Rightarrow> bool" where
  "is_hex_ci c \<longleftrightarrow> is_digit c \<or> (97 \<le> c \<and> c \<le> 102) \<or> (65 \<le> c \<and> c \<le> 70)"

text \<open>The class \<open>\w\<close>: \<open>[A-Za-z0-9_]\<close>.\<close>

definition is_word :: "nat \<Rightarrow> bool" where
  "is_word c \<longleftrightarrow> is_digit c \<or> (97 \<le> c \<and> c \<le> 122) \<or> (65 \<le> c \<and> c \<le> 90) \<or> c = 95"

text \<open>
  The assertion \<open>\b\<close> at a position of the input: \<open>prev\<close> is the code unit before the
  position (\<open>None\<close> at the start of the input), \<open>s\<close> the input from the position on.
  It holds when exactly one of the two neighbours is a word character.
\<close>

definition word_boundary :: "nat option \<Rightarrow> jsstring \<Rightarrow> bool" where
  "word_boundary prev s \<longleftrightarrow>
     (case prev of None \<Rightarrow> False | Some c \<Rightarrow> is_word c)
       \<noteq> (case s of [] \<Rightarrow> False | c # _ \<Rightarrow> is_word c)"

section \<open>fetch-proposal.ts: the regular expressions\<close>

text \<open>
  One attempt to match \<open>/\b([a-f0-9]{n})\b/i\<close> at a position: a word boundary, \<open>n\<close>
  code units of the class, a word boundary. The match is the \<open>n\<close> code units as they
  stand in the input.
\<close>

definition hex_token_here :: "nat \<Rightarrow> nat option \<Rightarrow> jsstring \<Rightarrow> jsstring option" where
  "hex_token_here n prev s =
     (if word_boundary prev s \<and> n \<le> length s \<and> list_all is_hex_ci (take n s)
         \<and> word_boundary (if n = 0 then prev else Some (s ! (n - 1))) (drop n s)
      then Some (take n s) else None)"

text \<open>
  \<open>text.match(/\b([a-f0-9]{n})\b/gi)\<close>: with the flag \<open>g\<close> the match is attempted at
  each position from left to right, and after a match the search goes on behind it.
  \<open>k\<close> counts the code units of the last match that are still to be passed.
\<close>

fun hex_tokens :: "nat \<Rightarrow> nat \<Rightarrow> nat option \<Rightarrow> jsstring \<Rightarrow> jsstring list" where
  "hex_tokens n k prev [] = []"
| "hex_tokens n (Suc k) prev (c # cs) = hex_tokens n k (Some c) cs"
| "hex_tokens n 0 prev (c # cs) =
     (case hex_token_here n prev (c # cs) of
        Some m \<Rightarrow> m # hex_tokens n (n - 1) (Some c) cs
      | None \<Rightarrow> hex_tokens n 0 (Some c) cs)"

text \<open>\<open>String.prototype.match\<close> with a global pattern: \<open>null\<close> when nothing matches.\<close>

definition match_hex_g :: "nat \<Rightarrow> jsstring \<Rightarrow> jsstring list option" where
  "match_hex_g n text = (case hex_tokens n 0 None text of [] \<Rightarrow> None | ms \<Rightarrow> Some ms)"

text \<open>
  \<^verbatim>\<open>
  function extractCommitHash(text: string): string | null {
    const commitRegex = /\b([a-f0-9]{40})\b/gi;
    const match = text.match(commitRegex);
    return match ? match[0] : null;
  }
  \<close>
\<close>

definition extractCommitHash :: "jsstring \<Rightarrow> jsstring option" where
  "extractCommitHash text =
     (case match_hex_g 40 text of None \<Rightarrow> None | Some ms \<Rightarrow> Some (hd ms))"

subsection \<open>Tokens of a text\<close>

text \<open>
  A hex token of width \<open>n\<close> starts at index \<open>i\<close> of a text when the \<open>n\<close> code units from
  \<open>i\<close> on are hexadecimal digits (of either case) and the run is not continued by a word
  character on either side. \<open>token_positions\<close> lists the indices of all tokens of a
  text in ascending order.
\<close>

definition token_at :: "nat \<Rightarrow> jsstring \<Rightarrow> nat \<Rightarrow> bool" where
  "token_at n t i \<longleftrightarrow>
     i + n \<le> length t \<and> list_all is_hex_ci (take n (drop i t))
     \<and> (i = 0 \<or> \<not> is_word (t ! (i - 1)))
     \<and> (i + n = length t \<or> \<not> is_word (t ! (i + n)))"

definition token_positions :: "nat \<Rightarrow> jsstring \<Rightarrow> nat list" where
  "token_positions n t = filter (token_at n t) [0 ..< Suc (length t) - n]"

definition token :: "nat \<Rightarrow> jsstring \<Rightarrow> nat \<Rightarrow> jsstring" where
  "token n t i = take n (drop i t)"

text \<open>\<open>String.prototype.toLowerCase\<close> on the letters a token can hold.\<close>

definition to_lower :: "jsstring \<Rightarrow> jsstring" where
  "to_lower s = map (\<lambda>c. if 65 \<le> c \<and> c \<le> 90 then c + 32 else c) s"

text \<open>The code unit before a position: the last one of the text before it, if any.\<close>

definition last_opt :: "'a list \<Rightarrow> 'a option" where
  "last_opt xs = (if xs = [] then None else Some (last xs))"

text \<open>Two proposal texts used as examples below.\<close>

definition two_commits :: jsstring where
  "two_commits = lit ''commit abcdef0123456789abcdef0123456789abcdef01, or ABCDEF0123456789ABCDEF0123456789ABCDEF02''"

definition upper_commit :: jsstring where
  "upper_commit = lit ''Commit: ABCDEF0123456789ABCDEF0123456789ABCDEF01''"

subsection \<open>The expected WASM hash recovered from the text\<close>

text \<open>
  A literal of a pattern under the flag \<open>i\<close> matches the text when the two agree up to
  the case of ASCII letters (the literals of the program are in lower case).
\<close>

definition ci_prefix :: "jsstring \<Rightarrow> jsstring \<Rightarrow> bool" where
  "ci_prefix l s \<longleftrightarrow> to_lower (take (length l) s) = l"

text \<open>
  The group \<open>(?:wasm|module|sha256)\<close> at a position: the alternatives are tried in
  order; the result is the input behind the label. (The alternatives begin with
  different letters, so at most one of them matches at a position.)
\<close>

definition label_here :: "jsstring \<Rightarrow> jsstring option" where
  "label_here s =
     (if ci_prefix (lit ''wasm'') s then Some (drop 4 s)
      else if ci_prefix (lit ''module'') s then Some (drop 6 s)
      else if ci_prefix (lit ''sha256'') s then Some (drop 6 s)
      else None)"

text \<open>
  \<open>[^\n]*?([a-f0-9]{n})\<close> at a position: the lazy quantifier first tries to go on with
  the group, and takes one more code unit other than a line feed only when the group
  does not match there. The result is the capture of the group.
\<close>

fun lazy_hex :: "nat \<Rightarrow> jsstring \<Rightarrow> jsstring option" where
  "lazy_hex n [] = (if n = 0 then Some [] else None)"
| "lazy_hex n (c # cs) =
     (if n \<le> length (c # cs) \<and> list_all is_hex_ci (take n (c # cs)) then Some (take n (c # cs))
      else if c = 10 then None
      else lazy_hex n cs)"

text \<open>
  \<open>hashRegex.exec(text)\<close> for \<open>/(?:wasm|module|sha256)[^\n]*?([a-f0-9]{64})/gi\<close> on a
  fresh pattern: the match is attempted at each position from left to right; the result
  is \<open>match[1]\<close> of the first match.
\<close>

fun labelled_hash :: "jsstring \<Rightarrow> jsstring option" where
  "labelled_hash [] = None"
| "labelled_hash (c # cs) =
     (case label_here (c # cs) of
        None \<Rightarrow> labelled_hash cs
      | Some rest \<Rightarrow>
          (case lazy_hex 64 rest of
             None \<Rightarrow> labelled_hash cs
           | Some h \<Rightarrow> Some h))"

text \<open>
  \<^verbatim>\<open>
  function extractWasmHash(text: string): string | null {
    const hashRegex = /(?:wasm|module|sha256)[^\n]*?([a-f0-9]{64})/gi;
    const match = hashRegex.exec(text);
    if (match) return match[1];
    const genericRegex = /\b([a-f0-9]{64})\b/gi;
    const genericMatch = text.match(genericRegex);
    return genericMatch ? genericMatch[0] : null;
  }
  \<close>
\<close>

definition extractWasmHash :: "jsstring \<Rightarrow> jsstring option" where
  "extractWasmHash text =
     (case labelled_hash text of
        Some h \<Rightarrow> Some h
      | None \<Rightarrow> (case match_hex_g 64 text of None \<Rightarrow> None | Some ms \<Rightarrow> Some (hd ms)))"

text \<open>
  The labels of the pattern, and the places of a text where a labelled hash stands: a
  label starts at index \<open>p\<close>, a run of 64 hexadecimal digits starts at index \<open>q\<close> behind
  the label, and no line feed stands between the label and the run.
  \<open>labelled_positions\<close> lists these pairs, by ascending \<open>p\<close> and then ascending \<open>q\<close>.
\<close>

definition labels :: "jsstring list" where
  "labels = [lit ''wasm'', lit ''module'', lit ''sha256'']"

definition hex_run :: "nat \<Rightarrow> jsstring \<Rightarrow> nat \<Rightarrow> bool" where
  "hex_run n t q \<longleftrightarrow> q + n \<le> length t \<and> list_all is_hex_ci (take n (drop q t))"

definition labelled_at :: "jsstring \<Rightarrow> nat \<Rightarrow> nat \<Rightarrow> bool" where
  "labelled_at t p q \<longleftrightarrow>
     (\<exists>l \<in> set labels. ci_prefix l (drop p t) \<and> p + length l \<le> q
        \<and> list_all (\<lambda>c. c \<noteq> 10) (take (q - (p + length l)) (drop (p + length l) t))
        \<and> hex_run 64 t q)"

definition labelled_positions :: "jsstring \<Rightarrow> (nat \<times> nat) list" where
  "labelled_positions t =
     concat (map (\<lambda>p. map (\<lambda>q. (p, q)) (filter (labelled_at t p) [p ..< length t]))
                 [0 ..< length t])"

text \<open>Proposal texts with two hashes, the second one behind a word.\<close>

definition hash_a :: jsstring where
  "hash_a = lit ''aaaaaaaaaaaaaaaaaaaaaaaaaaaaaaaaaaaaaaaaaaaaaaaaaaaaaaaaaaaaaaaa''"

definition hash_b :: jsstring where
  "hash_b = lit ''bbbbbbbbbbbbbbbbbbbbbbbbbbbbbbbbbbbbbbbbbbbbbbbbbbbbbbbbbbbbbbbb''"

definition hash_text :: "string \<Rightarrow> jsstring" where
  "hash_text word = hash_a @ [10] @ lit word @ lit '': '' @ hash_b"

text \<open>
  A run of \<open>n\<close> hexadecimal digits starts \<open>k\<close> code units into \<open>s\<close>, and no line feed
  stands before it.
\<close>

definition lazy_ok :: "nat \<Rightarrow> jsstring \<Rightarrow> nat \<Rightarrow> bool" where
  "lazy_ok n s k \<longleftrightarrow>
     k + n \<le> length s \<and> list_all is_hex_ci (take n (drop k s))
     \<and> list_all (\<lambda>c. c \<noteq> 10) (take k s)"

text \<open>The labelled hashes whose label starts at index \<open>p\<close>, by ascending index of the hash.\<close>

definition row :: "jsstring \<Rightarrow> nat \<Rightarrow> (nat \<times> nat) list" where
  "row t p = map (\<lambda>q. (p, q)) (filter (labelled_at t p) [p ..< length t])"


section \<open>JSON values and \<open>JSON.parse\<close>\<close>

text \<open>
  The values \<open>JSON.parse\<close> can return. A number is kept as the decimal literal it was
  written as: \<open>JNumber m e\<close> stands for \<open>m * 10^e\<close> (the program only ever asks
  whether a number is zero). The members of an object are kept in the order of the text,
  duplicates included.
\<close>

datatype json =
    JNull
  | JBool bool
  | JNumber int int
  | JString jsstring
  | JArray "json list"
  | JObject "(jsstring \<times> json) list"

text \<open>JSON white space: space, tab, line feed, carriage return.\<close>

definition is_json_ws :: "nat \<Rightarrow> bool" where
  "is_json_ws c \<longleftrightarrow> c = 32 \<or> c = 9 \<or> c = 10 \<or> c = 13"

definition skip_ws :: "jsstring \<Rightarrow> jsstring" where
  "skip_ws s = dropWhile is_json_ws s"

definition hex_val :: "nat \<Rightarrow> nat" where
  "hex_val c = (if is_digit c then c - 48 else if 97 \<le> c then c - 87 else c - 55)"

text \<open>
  The single-character escapes of a JSON string:
  \<open>\"\<close>, \<open>\\\<close>, \<open>\/\<close>, \<open>\b\<close>, \<open>\f\<close>, \<open>\n\<close>, \<open>\r\<close>, \<open>\t\<close>.
\<close>

definition escape_char :: "nat \<Rightarrow> nat option" where
  "escape_char e =
     (if e = 34 then Some 34 else if e = 92 then Some 92 else if e = 47 then Some 47
      else if e = 98 then Some 8 else if e = 102 then Some 12 else if e = 110 then Some 10
      else if e = 114 then Some 13 else if e = 116 then Some 9 else None)"

text \<open>
  The characters of a JSON string behind its opening quote, up to the closing quote
  (code unit 34): a backslash (92) starts an escape, \<open>\uXXXX\<close> (117) gives one code unit,
  and a control character below 32 is not allowed. The result is the string and the
  input behind the closing quote.
\<close>

fun json_chars :: "jsstring \<Rightarrow> jsstring \<Rightarrow> (jsstring \<times> jsstring) option" where
  "json_chars acc [] = None"
| "json_chars acc (c # cs) =
     (if c = 34 then Some (acc, cs)
      else if c = 92 then
        (case cs of
           [] \<Rightarrow> None
         | e # r \<Rightarrow>
             if e = 117 then
               (case r of
                  h1 # h2 # h3 # h4 # r' \<Rightarrow>
                    if list_all is_hex_ci [h1, h2, h3, h4]
                    then json_chars
                           (acc @ [((hex_val h1 * 16 + hex_val h2) * 16 + hex_val h3) * 16 + hex_val h4])
                           r'
                    else None
                | _ \<Rightarrow> None)
             else
               (case escape_char e of
                  None \<Rightarrow> None
                | Some x \<Rightarrow> json_chars (acc @ [x]) r))
      else if c < 32 then None
      else json_chars (acc @ [c]) cs)"

text \<open>
  A JSON number: \<open>-? (0 | [1-9][0-9]*) (. [0-9]+)? ([eE] [+-]? [0-9]+)?\<close>.
\<close>

definition starts :: "nat \<Rightarrow> jsstring \<Rightarrow> bool" where
  "starts c s = (case s of [] \<Rightarrow> False | x # _ \<Rightarrow> x = c)"

definition digits_val :: "jsstring \<Rightarrow> nat" where
  "digits_val ds = foldl (\<lambda>a c. 10 * a + (c - 48)) 0 ds"

definition json_frac :: "jsstring \<Rightarrow> (jsstring \<times> jsstring) option" where
  "json_frac s =
     (if starts 46 s then
        (if takeWhile is_digit (tl s) = [] then None
         else Some (takeWhile is_digit (tl s), dropWhile is_digit (tl s)))
      else Some ([], s))"

definition json_exp :: "jsstring \<Rightarrow> (int \<times> jsstring) option" where
  "json_exp s =
     (if starts 101 s \<or> starts 69 s then
        (let r = tl s;
             neg = starts 45 r;
             r' = (if starts 43 r \<or> starts 45 r then tl r else r)
         in if takeWhile is_digit r' = [] then None
            else Some ((if neg then - 1 else 1) * int (digits_val (takeWhile is_digit r')),
                       dropWhile is_digit r'))
      else Some (0, s))"

definition json_number :: "jsstring \<Rightarrow> (json \<times> jsstring) option" where
  "json_number s =
     (let neg = starts 45 s;
          s1 = (if neg then tl s else s)
      in case s1 of
           [] \<Rightarrow> None
         | d # r \<Rightarrow>
             if \<not> is_digit d then None
             else
               (let ip = (if d = 48 then [d] else takeWhile is_digit s1);
                    s2 = (if d = 48 then r else dropWhile is_digit s1)
                in case json_frac s2 of
                     None \<Rightarrow> None
                   | Some (fp, s3) \<Rightarrow>
                       (case json_exp s3 of
                          None \<Rightarrow> None
                        | Some (ex, s4) \<Rightarrow>
                            Some (JNumber ((if neg then - 1 else 1) * int (digits_val (ip @ fp)))
                                          (ex - int (length fp)), s4))))"

text \<open>
  A JSON value with the white space before it, the elements of an array behind \<open>[\<close>
  and the members of an object behind \<open>{\<close>. Each function returns the value and the
  input behind it, or \<open>None\<close> when the input is not JSON. (The tests
  \<open>length r < length s\<close> are there for the termination proof; a value always consumes
  input, see \<open>json_value_shorter\<close>.)
\<close>

function json_value :: "jsstring \<Rightarrow> (json \<times> jsstring) option"
  and json_elements :: "json list \<Rightarrow> jsstring \<Rightarrow> (json \<times> jsstring) option"
  and json_members :: "(jsstring \<times> json) list \<Rightarrow> jsstring \<Rightarrow> (json \<times> jsstring) option"
where
  "json_value s =
     (case skip_ws s of
        [] \<Rightarrow> None
      | c # r \<Rightarrow>
          if c = 123 then
            (if starts 125 (skip_ws r) then Some (JObject [], tl (skip_ws r))
             else json_members [] r)
          else if c = 91 then
            (if starts 93 (skip_ws r) then Some (JArray [], tl (skip_ws r))
             else json_elements [] r)
          else if c = 34 then
            (case json_chars [] r of
               None \<Rightarrow> None
             | Some (str, r') \<Rightarrow> Some (JString str, r'))
          else if c = 116 then
            (if take 4 (c # r) = lit ''true'' then Some (JBool True, drop 3 r) else None)
          else if c = 102 then
            (if take 5 (c # r) = lit ''false'' then Some (JBool False, drop 4 r) else None)
          else if c = 110 then
            (if take 4 (c # r) = lit ''null'' then Some (JNull, drop 3 r) else None)
          else json_number (c # r))"
| "json_elements acc s =
     (case json_value s of
        None \<Rightarrow> None
      | Some (v, r) \<Rightarrow>
          if length r < length s then
            (case skip_ws r of
               [] \<Rightarrow> None
             | c # r' \<Rightarrow>
                 if c = 44 then json_elements (acc @ [v]) r'
                 else if c = 93 then Some (JArray (acc @ [v]), r')
                 else None)
          else None)"
| "json_members acc s =
     (case skip_ws s of
        [] \<Rightarrow> None
      | c # r \<Rightarrow>
          if c \<noteq> 34 then None
          else
            (case json_chars [] r of
               None \<Rightarrow> None
             | Some (k, r1) \<Rightarrow>
                 if length r1 < length r then
                   (case skip_ws r1 of
                      [] \<Rightarrow> None
                    | c1 # r2 \<Rightarrow>
                        if c1 \<noteq> 58 then None
                        else
                          (case json_value r2 of
                             None \<Rightarrow> None
                           | Some (v, r3) \<Rightarrow>
                               if length r3 < length r2 then
                                 (case skip_ws r3 of
                                    [] \<Rightarrow> None
                                  | c3 # r4 \<Rightarrow>
                                      if c3 = 44 then json_members (acc @ [(k, v)]) r4
                                      else if c3 = 125 then Some (JObject (acc @ [(k, v)]), r4)
                                      else None)
                               else None))
                 else None))"
  by pat_completeness auto
termination
proof (relation "measure (\<lambda>x. case x of
          Inl s \<Rightarrow> 2 * length s
        | Inr (Inl (acc, s)) \<Rightarrow> 2 * length s + 1
        | Inr (Inr (acc, s)) \<Rightarrow> 2 * length s + 1)", goal_cases)
  case 1
  show ?case by simp
next
  case (2 s c r)
  have "length (skip_ws s) \<le> length s" by (simp add: skip_ws_def length_dropWhile_le)
  then show ?case using 2 by simp
next
  case (3 s c r)
  have "length (skip_ws s) \<le> length s" by (simp add: skip_ws_def length_dropWhile_le)
  then show ?case using 3 by simp
next
  case (4 acc s)
  show ?case by simp
next
  case (5 acc s x v r c r')
  have "length (skip_ws r) \<le> length r" by (simp add: skip_ws_def length_dropWhile_le)
  then show ?case using 5 by simp
next
  case (6 acc s c r x k r1 c1 r2)
  have "length (skip_ws s) \<le> length s" "length (skip_ws r1) \<le> length r1"
    by (simp_all add: skip_ws_def length_dropWhile_le)
  then show ?case using 6 by simp
next
  case (7 acc s c r x k r1 c1 r2 y v r3 c3 r4)
  have "length (skip_ws s) \<le> length s" "length (skip_ws r1) \<le> length r1"
    "length (skip_ws r3) \<le> length r3"
    by (simp_all add: skip_ws_def length_dropWhile_le)
  then show ?case using 7 by simp
qed

text \<open>
  \<open>JSON.parse(text)\<close>: one value with white space around it and nothing else;
  \<open>None\<close> stands for the \<open>SyntaxError\<close> it throws otherwise.
\<close>

definition JSON_parse :: "jsstring \<Rightarrow> json option" where
  "JSON_parse text =
     (case json_value text of
        None \<Rightarrow> None
      | Some (v, rest) \<Rightarrow> if skip_ws rest = [] then Some v else None)"


section \<open>JavaScript values and operations\<close>

text \<open>
  The value of an expression over parsed JSON: \<open>undefined\<close> or a JSON value. What a
  \<open>try\<close> block can catch: the \<open>SyntaxError\<close> of \<open>JSON.parse\<close>, the \<open>TypeError\<close> of a
  property read on \<open>null\<close> or \<open>undefined\<close>, and an \<open>Error\<close> thrown with a message.
\<close>

datatype jsval = Undefined | Val json

datatype exn = SyntaxError | TypeError | Error string

text \<open>
  \<open>v.k\<close> for a parsed JSON value \<open>v\<close>. On \<open>null\<close> the read throws. On an object the
  last member with that key counts (\<open>JSON.parse\<close> overwrites duplicates). On a
  string, number, boolean or array the result is \<open>undefined\<close>: the keys the program
  reads (\<open>steps\<close>, \<open>wasmOutputPath\<close>, \<open>commitHash\<close>, \<open>title\<close>, ...) are not among the
  properties those values have or inherit.
\<close>

definition get_prop :: "json \<Rightarrow> jsstring \<Rightarrow> exn + jsval" where
  "get_prop v k =
     (case v of
        JNull \<Rightarrow> Inl TypeError
      | JObject ms \<Rightarrow> Inr (case map_of (rev ms) k of None \<Rightarrow> Undefined | Some x \<Rightarrow> Val x)
      | _ \<Rightarrow> Inr Undefined)"

text \<open>
  The literal \<open>m * 10^e\<close> denotes the double \<open>0\<close> when \<open>m = 0\<close>, or when it is so small
  that it rounds to zero (at most \<open>2^-1075\<close> in absolute value).
\<close>

definition number_is_zero :: "int \<Rightarrow> int \<Rightarrow> bool" where
  "number_is_zero m e =
     (if m = 0 then True
      else if 0 \<le> e then False
      else \<bar>m\<bar> * 2 ^ 1075 \<le> 10 ^ nat (- e))"

text \<open>
  \<open>ToBoolean\<close>: \<open>undefined\<close>, \<open>null\<close>, \<open>false\<close>, zero and the empty string are falsy,
  everything else (every array and object too) is truthy.
\<close>

definition truthy :: "jsval \<Rightarrow> bool" where
  "truthy x =
     (case x of
        Undefined \<Rightarrow> False
      | Val JNull \<Rightarrow> False
      | Val (JBool b) \<Rightarrow> b
      | Val (JNumber m e) \<Rightarrow> \<not> number_is_zero m e
      | Val (JString s) \<Rightarrow> s \<noteq> []
      | Val (JArray _) \<Rightarrow> True
      | Val (JObject _) \<Rightarrow> True)"

text \<open>
  The literal \<open>m * 10^e\<close> denotes the double \<open>Infinity\<close> (or \<open>-Infinity\<close>) when its
  absolute value is at least \<open>2^1024 - 2^970\<close>, halfway between the largest finite double
  and \<open>2^1024\<close>: from there on rounding to the nearest double overflows.
\<close>

definition number_is_infinite :: "int \<Rightarrow> int \<Rightarrow> bool" where
  "number_is_infinite m e =
     (if 0 \<le> e then 2 ^ 1024 - 2 ^ 970 \<le> \<bar>m\<bar> * 10 ^ nat e
      else (2 ^ 1024 - 2 ^ 970) * 10 ^ nat (- e) \<le> \<bar>m\<bar>)"

text \<open>
  What \<open>JSON.parse\<close> reads back from the text \<open>JSON.stringify\<close> writes for a parsed
  JSON value: the value itself, but with \<open>null\<close> in the place of every number that is
  not finite. (A finite number is written as the double it denotes; it is kept here
  under the literal it came from. A member \<open>toJSON\<close> of a parsed object is no function
  and is written like every other member.)
\<close>

fun stringified :: "json \<Rightarrow> json" where
  "stringified (JNumber m e) = (if number_is_infinite m e then JNull else JNumber m e)"
| "stringified (JArray xs) = JArray (map stringified xs)"
| "stringified (JObject ms) = JObject (map (\<lambda>kv. (fst kv, stringified (snd kv))) ms)"
| "stringified v = v"

text \<open>
  Whether the conversion of a parsed JSON value to a string or a number throws, as in
  a template literal \<open>`${v}`\<close> or in \<open>v / 1000\<close>: it does for an object whose own member
  \<open>toString\<close> hides the inherited method (the member is no function, and the inherited
  \<open>valueOf\<close> gives back the object), and for an array with such an element, since
  \<open>Array.prototype.toString\<close> joins the converted elements.
\<close>

fun conversion_throws :: "json \<Rightarrow> bool" where
  "conversion_throws (JObject ms) = (lit ''toString'' \<in> fst ` set ms)"
| "conversion_throws (JArray xs) = list_ex conversion_throws xs"
| "conversion_throws v = False"

definition shown_throws :: "jsval \<Rightarrow> bool" where
  "shown_throws x = (case x of Undefined \<Rightarrow> False | Val v \<Rightarrow> conversion_throws v)"

text \<open>
  \<open>String.prototype.trim\<close> removes white space and line terminators at both ends:
  TAB, LF, VT, FF, CR, SP, NBSP, U+1680, U+2000 to U+200A, U+2028, U+2029, U+202F,
  U+205F, U+3000 and U+FEFF.
\<close>

definition is_js_ws :: "nat \<Rightarrow> bool" where
  "is_js_ws c \<longleftrightarrow>
     (9 \<le> c \<and> c \<le> 13) \<or> c = 32 \<or> c = 160 \<or> c = 5760 \<or> (8192 \<le> c \<and> c \<le> 8202)
     \<or> c = 8232 \<or> c = 8233 \<or> c = 8239 \<or> c = 8287 \<or> c = 12288 \<or> c = 65279"

definition js_trim :: "jsstring \<Rightarrow> jsstring" where
  "js_trim s = rev (dropWhile is_js_ws (rev (dropWhile is_js_ws s)))"

definition starts_with :: "jsstring \<Rightarrow> jsstring \<Rightarrow> bool" where
  "starts_with p s \<longleftrightarrow> take (length p) s = p"

definition ends_with :: "jsstring \<Rightarrow> jsstring \<Rightarrow> bool" where
  "ends_with p s \<longleftrightarrow> length p \<le> length s \<and> drop (length s - length p) s = p"

section \<open>extract-build-steps.ts\<close>

text \<open>The three backticks of a Markdown code fence (code unit 96).\<close>

definition fence :: jsstring where
  "fence = [96, 96, 96]"

text \<open>
  \<open>s.replace(/^```(?:json)?\n?/, '')\<close>: at the start of the input only, the fence, then
  \<open>json\<close> if it is there, then a line feed if it is there.
\<close>

definition strip_open_fence :: "jsstring \<Rightarrow> jsstring" where
  "strip_open_fence s =
     (if starts_with fence s then
        (let s1 = drop 3 s;
             s2 = (if starts_with (lit ''json'') s1 then drop 4 s1 else s1)
         in if starts 10 s2 then tl s2 else s2)
      else s)"

text \<open>
  \<open>s.replace(/\n?```$/, '')\<close>: the fence at the very end of the input, with the line
  feed before it if there is one (the leftmost match takes the line feed).
\<close>

definition strip_close_fence :: "jsstring \<Rightarrow> jsstring" where
  "strip_close_fence s =
     (if ends_with (10 # fence) s then take (length s - 4) s
      else if ends_with fence s then take (length s - 3) s
      else s)"

text \<open>
  The text handed to \<open>JSON.parse\<close>:
  \<^verbatim>\<open>
  let jsonStr = response.trim();
  if (jsonStr.startsWith('```')) {
    jsonStr = jsonStr.replace(/^```(?:json)?\n?/, '').replace(/\n?```$/, '');
  }
  \<close>
\<close>

definition json_body :: "jsstring \<Rightarrow> jsstring" where
  "json_body response =
     (let jsonStr = js_trim response
      in if starts_with fence jsonStr then strip_close_fence (strip_open_fence jsonStr)
         else jsonStr)"

text \<open>The plan \<open>parseGeminiResponse\<close> returns; its fields hold whatever JSON the response had.\<close>

record build_plan =
  steps :: "json list"
  wasmOutputPath :: json

text \<open>The error \<open>parseGeminiResponse\<close> throws: \<open>Failed to parse LLM response: ${err}\<close>.\<close>

datatype parse_failure = FailedToParseLLMResponse exn

text \<open>
  \<^verbatim>\<open>
  try {
    const parsed = JSON.parse(jsonStr);
    if (!Array.isArray(parsed.steps)) {
      throw new Error('Invalid response: steps must be an array');
    }
    return {
      steps: parsed.steps,
      wasmOutputPath: parsed.wasmOutputPath || 'output.wasm'
    };
  } catch (err) {
    console.error('Failed to parse Gemini response:', response);
    throw new Error(`Failed to parse LLM response: ${err}`);
  }
  \<close>
\<close>

definition parseGeminiResponse :: "jsstring \<Rightarrow> parse_failure + build_plan" where
  "parseGeminiResponse response =
     (case JSON_parse (json_body response) of
        None \<Rightarrow> Inl (FailedToParseLLMResponse SyntaxError)
      | Some parsed \<Rightarrow>
          (case get_prop parsed (lit ''steps'') of
             Inl e \<Rightarrow> Inl (FailedToParseLLMResponse e)
           | Inr (Val (JArray xs)) \<Rightarrow>
               (case get_prop parsed (lit ''wasmOutputPath'') of
                  Inl e \<Rightarrow> Inl (FailedToParseLLMResponse e)
                | Inr p \<Rightarrow>
                    Inr \<lparr>steps = xs,
                         wasmOutputPath =
                           (case p of
                              Val w \<Rightarrow> if truthy p then w else JString (lit ''output.wasm'')
                            | Undefined \<Rightarrow> JString (lit ''output.wasm''))\<rparr>)
           | Inr _ \<Rightarrow>
               Inl (FailedToParseLLMResponse (Error ''Invalid response: steps must be an array''))))"

text \<open>Responses used as examples below.\<close>

definition empty_steps_response :: jsstring where
  \<open>empty_steps_response = lit ''{"steps": [], "wasmOutputPath": "out.wasm"}''\<close>

definition steps_string_response :: jsstring where
  \<open>steps_string_response = lit ''{"steps": "make", "wasmOutputPath": "out.wasm"}''\<close>

definition no_steps_response :: jsstring where
  \<open>no_steps_response = lit ''{"wasmOutputPath": "out.wasm"}''\<close>

definition fenced_prose_response :: jsstring where
  "fenced_prose_response = fence @ [10] @ lit ''run make'' @ [10] @ fence"

definition no_path_response :: jsstring where
  \<open>no_path_response = lit ''{"steps": ["make"]}''\<close>

definition with_path_response :: jsstring where
  \<open>with_path_response = lit ''{"steps": ["make"], "wasmOutputPath": "out.wasm"}''\<close>

definition fenced_response :: jsstring where
  "fenced_response = fence @ lit ''json'' @ [10] @ with_path_response @ [10] @ fence"

definition object_path_response :: jsstring where
  \<open>object_path_response = lit ''{"steps": ["make"], "wasmOutputPath": {"toString": 1}}''\<close>

definition object_step_response :: jsstring where
  \<open>object_step_response = lit ''{"steps": [{"toString": 1}], "wasmOutputPath": "out.wasm"}''\<close>

definition huge_path_response :: jsstring where
  \<open>huge_path_response = lit ''{"steps": ["make"], "wasmOutputPath": 1e400}''\<close>

section \<open>The pipeline: files and stages\<close>

text \<open>
  The stages hand their results over in two files of the workspace, written with
  \<open>JSON.stringify\<close> and read with \<open>JSON.parse\<close>. A file is modelled by the document it
  holds, typed as the interface the stages declare for it; \<open>None\<close> stands for a file that
  is not there (or cannot be read).
\<close>

record ProposalData =
  proposalId :: jsstring
  title :: jsstring
  summary :: jsstring
  url :: jsstring
  commitHash :: "jsstring option"
  expectedWasmHash :: "jsstring option"

text \<open>\<open>BuildSteps\<close>: the plan together with the commit it is for.\<close>

record BuildSteps = build_plan +
  forCommit :: jsstring

record workspace =
  proposal_json :: "ProposalData option"
  build_steps_json :: "BuildSteps option"

subsection \<open>fetch-proposal.ts\<close>

text \<open>
  The proposal of the governance canister, as the interface description decodes it:
  an optional title, a summary and a URL. The call \<open>get_proposal_info\<close> is outside the
  program: it throws, or finds nothing, or finds a record whose proposal is empty, or
  returns the proposal.
\<close>

datatype proposal = Proposal (prop_title: "jsstring option") (prop_summary: jsstring) (prop_url: jsstring)

datatype stage1_end =
    Stage1Done
  | Usage
  | ProposalNotFound
  | ProposalEmpty
  | ErrorFetching exn

text \<open>\<open>`${title}\n${summary}\n${url}`\<close> with \<open>title = proposal.title?.[0] || 'Untitled'\<close>.\<close>

definition shown_title :: "proposal \<Rightarrow> jsstring" where
  "shown_title p =
     (case prop_title p of
        None \<Rightarrow> lit ''Untitled''
      | Some t \<Rightarrow> if t = [] then lit ''Untitled'' else t)"

definition combinedText :: "proposal \<Rightarrow> jsstring" where
  "combinedText p = shown_title p @ [10] @ prop_summary p @ [10] @ prop_url p"

text \<open>
  \<open>main\<close> of fetch-proposal.ts: \<open>argv2\<close> is \<open>process.argv[2]\<close>. A missing commit hash
  only gives a warning; the file is written all the same.
\<close>

definition fetch_main ::
  "jsstring option \<Rightarrow> (jsstring \<Rightarrow> exn + proposal option option) \<Rightarrow> workspace
     \<Rightarrow> workspace \<times> stage1_end" where
  "fetch_main argv2 get_proposal_info w =
     (case argv2 of
        None \<Rightarrow> (w, Usage)
      | Some pid \<Rightarrow>
          if pid = [] then (w, Usage)
          else
            (case get_proposal_info pid of
               Inl e \<Rightarrow> (w, ErrorFetching e)
             | Inr None \<Rightarrow> (w, ProposalNotFound)
             | Inr (Some None) \<Rightarrow> (w, ProposalEmpty)
             | Inr (Some (Some p)) \<Rightarrow>
                 (w\<lparr>proposal_json := Some
                      \<lparr>proposalId = pid,
                       title = shown_title p,
                       summary = prop_summary p,
                       url = prop_url p,
                       commitHash = extractCommitHash (combinedText p),
                       expectedWasmHash = extractWasmHash (combinedText p)\<rparr>\<rparr>,
                  Stage1Done)))"

subsection \<open>extract-build-steps.ts: \<open>main\<close>\<close>

text \<open>
  \<open>callGemini\<close>: without an API key it throws before any request is made; otherwise the
  request goes to the model, which is outside the program: \<open>generate\<close> gives the text of
  its response, or throws.
\<close>

definition callGemini ::
  "jsstring option \<Rightarrow> (jsstring \<Rightarrow> exn + jsstring) \<Rightarrow> jsstring \<Rightarrow> exn + jsstring" where
  "callGemini api_key generate prompt =
     (case api_key of
        None \<Rightarrow> Inl (Error ''GEMINI_API_KEY environment variable is required'')
      | Some k \<Rightarrow>
          if k = [] then Inl (Error ''GEMINI_API_KEY environment variable is required'')
          else generate prompt)"

text \<open>
  The prompt: the fixed instruction text \<open>EXTRACTION_PROMPT\<close> (a parameter here, its
  wording plays no role) followed by title, summary and URL of the proposal.
\<close>

definition build_prompt :: "jsstring \<Rightarrow> ProposalData \<Rightarrow> jsstring" where
  "build_prompt EXTRACTION_PROMPT pd =
     EXTRACTION_PROMPT @ [10] @ lit ''Title: '' @ title pd @ [10]
       @ lit ''Summary: '' @ summary pd @ [10] @ lit ''URL: '' @ url pd @ [10]"

text \<open>
  How \<open>main\<close> ends: normally, with one of its two own messages and \<open>process.exit(1)\<close>,
  or with an error that reaches \<open>main().catch\<close>, which also exits with 1.
\<close>

datatype stage2_end =
    Stage2Done
  | CouldNotReadProposal
  | NoCommitHash
  | ErrorExtracting exn
  | ErrorParsing parse_failure

text \<open>
  The result of a run of \<open>main\<close>: the workspace afterwards, how it ended and the prompts
  \<open>callGemini\<close> was invoked with.
\<close>

record stage2_result =
  ws :: workspace
  ended :: stage2_end
  gemini_prompts :: "jsstring list"

text \<open>
  \<open>main\<close>. After the plan is parsed:
  \<^verbatim>\<open>
  const { steps, wasmOutputPath } = parseGeminiResponse(response);
  ...
  console.log(`  Number of steps: ${steps.length}`);
  console.log(`  WASM output path: ${wasmOutputPath}`);
  const buildSteps: BuildSteps = {
    commitHash: proposalData.commitHash,
    steps,
    wasmOutputPath,
  };
  writeFileSync('build-steps.json', JSON.stringify(buildSteps, null, 2));
  console.log('Wrote build-steps.json');
  ...
  steps.forEach((step, i) => {
    console.log(`  ${i + 1}. ${step}`);
  });
  \<close>
  The template literal with the output path is evaluated before the file is written,
  the one with the steps after it: when the conversion of the path throws, the run ends
  with that error and no file; when the conversion of a step throws, the run ends with
  that error and the file is there. The file holds the values as \<open>JSON.stringify\<close>
  writes them.
\<close>

definition extract_main ::
  "jsstring \<Rightarrow> jsstring option \<Rightarrow> (jsstring \<Rightarrow> exn + jsstring) \<Rightarrow> workspace \<Rightarrow> stage2_result" where
  "extract_main EXTRACTION_PROMPT api_key generate w =
     (case proposal_json w of
        None \<Rightarrow> \<lparr>ws = w, ended = CouldNotReadProposal, gemini_prompts = []\<rparr>
      | Some proposalData \<Rightarrow>
          (case commitHash proposalData of
             None \<Rightarrow> \<lparr>ws = w, ended = NoCommitHash, gemini_prompts = []\<rparr>
           | Some h \<Rightarrow>
               if h = [] then \<lparr>ws = w, ended = NoCommitHash, gemini_prompts = []\<rparr>
               else
                 (let prompt = build_prompt EXTRACTION_PROMPT proposalData
                  in case callGemini api_key generate prompt of
                       Inl e \<Rightarrow> \<lparr>ws = w, ended = ErrorExtracting e, gemini_prompts = [prompt]\<rparr>
                     | Inr response \<Rightarrow>
                         (case parseGeminiResponse response of
                            Inl f \<Rightarrow> \<lparr>ws = w, ended = ErrorParsing f, gemini_prompts = [prompt]\<rparr>
                          | Inr plan \<Rightarrow>
                              if conversion_throws (wasmOutputPath plan) then
                                \<lparr>ws = w, ended = ErrorExtracting TypeError,
                                 gemini_prompts = [prompt]\<rparr>
                              else
                                \<lparr>ws = w\<lparr>build_steps_json := Some
                                         \<lparr>steps = map stringified (steps plan),
                                          wasmOutputPath = stringified (wasmOutputPath plan),
                                          forCommit = h\<rparr>\<rparr>,
                                 ended = (if list_ex conversion_throws (steps plan)
                                          then ErrorExtracting TypeError else Stage2Done),
                                 gemini_prompts = [prompt]\<rparr>))))"

definition stage2_exit_code :: "stage2_end \<Rightarrow> nat" where
  "stage2_exit_code e = (if e = Stage2Done then 0 else 1)"

text \<open>A proposal file for the examples.\<close>

definition example_proposal :: ProposalData where
  "example_proposal =
     \<lparr>proposalId = lit ''1'', title = lit ''Upgrade'', summary = lit ''Build it'', url = [],
      commitHash = Some (lit ''abcdef0123456789abcdef0123456789abcdef01''),
      expectedWasmHash = None\<rparr>"

subsection \<open>The stages one after the other\<close>

text \<open>
  What a run of the whole pipeline leaves: how the first program ended, and the results
  of the second program and of the BuildExecutor. A stage that was not started is
  \<open>None\<close>, a stage that was started is \<open>Some\<close> of its result.
\<close>

record 'b pipeline_result =
  stage1 :: stage1_end
  stage2 :: "stage2_result option"
  stage3 :: "'b option"

text \<open>
  Modelled from the spec: the orchestrator that starts the stages one after the other
  (the workflow of the repository) is not among the sources. The specification says of
  it: ``Data flow is strictly linear and single-pass per proposal [...] a failed run
  simply terminates with a reported reason'' and ``Any stage returning a failure
  short-circuits the pipeline: no later stage's collaborator (e.g., BuildExecutor) is
  invoked once ReferenceExtractor fails to resolve a commit''. So the second program
  is started only after the first has ended normally, and the BuildExecutor only after
  the second has. The two programs are the code above; the BuildExecutor is the
  parameter \<open>build\<close>, started on the workspace the second program has left.
\<close>

definition pipeline ::
  "jsstring \<Rightarrow> jsstring option \<Rightarrow> (jsstring \<Rightarrow> exn + jsstring) \<Rightarrow> (workspace \<Rightarrow> 'b)
     \<Rightarrow> jsstring option \<Rightarrow> (jsstring \<Rightarrow> exn + proposal option option) \<Rightarrow> workspace
     \<Rightarrow> 'b pipeline_result" where
  "pipeline EXTRACTION_PROMPT api_key generate build argv2 get_proposal_info w0 =
     (case fetch_main argv2 get_proposal_info w0 of
        (w1, e1) \<Rightarrow>
          if e1 \<noteq> Stage1Done then \<lparr>stage1 = e1, stage2 = None, stage3 = None\<rparr>
          else
            (let r2 = extract_main EXTRACTION_PROMPT api_key generate w1
             in if ended r2 \<noteq> Stage2Done then
                  \<lparr>stage1 = e1, stage2 = Some r2, stage3 = None\<rparr>
                else \<lparr>stage1 = e1, stage2 = Some r2, stage3 = Some (build (ws r2))\<rparr>))"

text \<open>A proposal without a commit hash in its text, and workspaces for the examples.\<close>

definition no_commit_proposal :: proposal where
  "no_commit_proposal =
     Proposal (Some (lit ''Upgrade the registry'')) (lit ''See the forum post.'')
              (lit ''https://example.org/p/1'')"

definition one_proposal :: "jsstring \<Rightarrow> exn + proposal option option" where
  "one_proposal pid = Inr (Some (Some no_commit_proposal))"

definition fixed_response :: "jsstring \<Rightarrow> jsstring \<Rightarrow> exn + jsstring" where
  "fixed_response r prompt = Inr r"

definition proposal_workspace :: workspace where
  "proposal_workspace = \<lparr>proposal_json = Some example_proposal, build_steps_json = None\<rparr>"

text \<open>
  A workspace in which an earlier run has left a plan, and a BuildExecutor that only
  says which plan it was started on.
\<close>

definition stale_workspace :: workspace where
  "stale_workspace =
     \<lparr>proposal_json = None,
      build_steps_json = Some
        \<lparr>steps = [JString (lit ''make'')], wasmOutputPath = JString (lit ''out.wasm''),
         forCommit = lit ''abcdef0123456789abcdef0123456789abcdef01''\<rparr>\<rparr>"

definition started_on :: "workspace \<Rightarrow> BuildSteps option" where
  "started_on w = build_steps_json w"

section \<open>post-commentary.ts\<close>

text \<open>
  \<open>text.match(/\{[\s\S]*\}/)\<close>: the match starts at the first \<open>{\<close> (code unit 123) and,
  the quantifier being greedy, ends at the last \<open>}\<close> (125) behind it; without such a
  \<open>}\<close> there is no match.
\<close>

definition match_braces :: "jsstring \<Rightarrow> jsstring option" where
  "match_braces text =
     (let s = dropWhile (\<lambda>c. c \<noteq> 123) text
      in if 125 \<in> set s then Some (rev (dropWhile (\<lambda>c. c \<noteq> 125) (rev s))) else None)"

text \<open>
  \<^verbatim>\<open>
  function extractJsonFromText(text: string): CommentarySchema | null {
    const jsonMatch = text.match(/\{[\s\S]*\}/);
    if (jsonMatch) {
      try {
        const parsed = JSON.parse(jsonMatch[0]);
        if (parsed.title && parsed.overall_summary) { return parsed; }
      } catch { }
    }
    return null;
  }
  \<close>
  Nothing else of the document is checked: its other members are whatever JSON the
  text holds.
\<close>

definition extractJsonFromText :: "jsstring \<Rightarrow> json option" where
  "extractJsonFromText text =
     (case match_braces text of
        None \<Rightarrow> None
      | Some m \<Rightarrow>
          (case JSON_parse m of
             None \<Rightarrow> None
           | Some parsed \<Rightarrow>
               (case get_prop parsed (lit ''title'') of
                  Inl e \<Rightarrow> None
                | Inr t \<Rightarrow>
                    if \<not> truthy t then None
                    else
                      (case get_prop parsed (lit ''overall_summary'') of
                         Inl e \<Rightarrow> None
                       | Inr s \<Rightarrow> if truthy s then Some parsed else None))))"

text \<open>
  \<open>for (const x of v)\<close> over a parsed JSON value: an array gives its elements, a string
  its characters (as strings), and every other value is not iterable.
\<close>

definition iterate :: "json \<Rightarrow> exn + json list" where
  "iterate v =
     (case v of
        JArray xs \<Rightarrow> Inr xs
      | JString s \<Rightarrow> Inr (map (\<lambda>c. JString [c]) s)
      | _ \<Rightarrow> Inl TypeError)"

text \<open>\<open>a || b\<close> and \<open>a || 0\<close>.\<close>

definition or_else :: "jsval \<Rightarrow> jsval \<Rightarrow> jsval" where
  "or_else a b = (if truthy a then a else b)"

definition or_zero :: "jsval \<Rightarrow> json" where
  "or_zero a = (case a of Val v \<Rightarrow> if truthy a then v else JNumber 0 0 | Undefined \<Rightarrow> JNumber 0 0)"

text \<open>What \<open>parseClaudeOutput\<close> returns.\<close>

record claude_output =
  commentary :: "json option"
  cost :: json
  duration :: json
  turns :: json

text \<open>
  The inner loop over \<open>turn.message.content\<close>:
  \<^verbatim>\<open>
  if (item.type === 'text' && item.text) {
    const found = extractJsonFromText(item.text);
    if (found) { commentary = found; }
  }
  \<close>
  \<open>item.text.match\<close> is a function only when \<open>item.text\<close> is a string.
\<close>

fun scan_items :: "json list \<Rightarrow> json option \<Rightarrow> exn + json option" where
  "scan_items [] c = Inr c"
| "scan_items (item # items) c =
     (case get_prop item (lit ''type'') of
        Inl e \<Rightarrow> Inl e
      | Inr ty \<Rightarrow>
          if ty \<noteq> Val (JString (lit ''text'')) then scan_items items c
          else
            (case get_prop item (lit ''text'') of
               Inl e \<Rightarrow> Inl e
             | Inr tx \<Rightarrow>
                 if \<not> truthy tx then scan_items items c
                 else
                   (case tx of
                      Val (JString s) \<Rightarrow>
                        (case extractJsonFromText s of
                           Some found \<Rightarrow> scan_items items (Some found)
                         | None \<Rightarrow> scan_items items c)
                    | _ \<Rightarrow> Inl TypeError)))"

text \<open>\<open>turn.message?.content\<close>.\<close>

definition message_content :: "json \<Rightarrow> exn + jsval" where
  "message_content turn =
     (case get_prop turn (lit ''message'') of
        Inl e \<Rightarrow> Inl e
      | Inr Undefined \<Rightarrow> Inr Undefined
      | Inr (Val JNull) \<Rightarrow> Inr Undefined
      | Inr (Val m) \<Rightarrow> get_prop m (lit ''content''))"

text \<open>
  The loop over the turns:
  \<^verbatim>\<open>
  if (turn.type === 'result') {
    cost = turn.total_cost_usd || turn.cost_usd || 0;
    duration = turn.duration_ms || 0;
    numTurns = turn.num_turns || 0;
  }
  if (turn.type === 'assistant' && turn.message?.content) {
    for (const item of turn.message.content) { ... }
  }
  \<close>
\<close>

definition read_stats :: "json \<Rightarrow> claude_output \<Rightarrow> exn + claude_output" where
  "read_stats turn out =
     (case get_prop turn (lit ''type'') of
        Inl e \<Rightarrow> Inl e
      | Inr ty \<Rightarrow>
          if ty \<noteq> Val (JString (lit ''result'')) then Inr out
          else
            (case get_prop turn (lit ''total_cost_usd'') of
               Inl e \<Rightarrow> Inl e
             | Inr a \<Rightarrow>
                 (case get_prop turn (lit ''cost_usd'') of
                    Inl e \<Rightarrow> Inl e
                  | Inr b \<Rightarrow>
                      (case get_prop turn (lit ''duration_ms'') of
                         Inl e \<Rightarrow> Inl e
                       | Inr d \<Rightarrow>
                           (case get_prop turn (lit ''num_turns'') of
                              Inl e \<Rightarrow> Inl e
                            | Inr n \<Rightarrow>
                                Inr \<lparr>commentary = commentary out,
                                     cost = or_zero (or_else a b),
                                     duration = or_zero d,
                                     turns = or_zero n\<rparr>)))))"

fun scan_turns :: "json list \<Rightarrow> claude_output \<Rightarrow> exn + claude_output" where
  "scan_turns [] out = Inr out"
| "scan_turns (turn # rest) out =
     (case read_stats turn out of
        Inl e \<Rightarrow> Inl e
      | Inr out1 \<Rightarrow>
          (case get_prop turn (lit ''type'') of
             Inl e \<Rightarrow> Inl e
           | Inr ty \<Rightarrow>
               if ty \<noteq> Val (JString (lit ''assistant'')) then scan_turns rest out1
               else
                 (case message_content turn of
                    Inl e \<Rightarrow> Inl e
                  | Inr content \<Rightarrow>
                      if \<not> truthy content then scan_turns rest out1
                      else
                        (case content of
                           Undefined \<Rightarrow> scan_turns rest out1
                         | Val cv \<Rightarrow>
                             (case iterate cv of
                                Inl e \<Rightarrow> Inl e
                              | Inr items \<Rightarrow>
                                  (case scan_items items (commentary out1) of
                                     Inl e \<Rightarrow> Inl e
                                   | Inr c \<Rightarrow> scan_turns rest (out1\<lparr>commentary := c\<rparr>)))))))"

text \<open>
  \<open>parseClaudeOutput(outputPath)\<close>: \<open>file\<close> is the text of the file at that path, \<open>None\<close>
  when \<open>readFileSync\<close> throws.
\<close>

definition parseClaudeOutput :: "jsstring option \<Rightarrow> exn + claude_output" where
  "parseClaudeOutput file =
     (case file of
        None \<Rightarrow> Inl (Error ''ENOENT: no such file or directory'')
      | Some raw \<Rightarrow>
          (case JSON_parse raw of
             None \<Rightarrow> Inl SyntaxError
           | Some ts \<Rightarrow>
               (case iterate ts of
                  Inl e \<Rightarrow> Inl e
                | Inr xs \<Rightarrow>
                    scan_turns xs
                      \<lparr>commentary = None, cost = JNumber 0 0, duration = JNumber 0 0,
                       turns = JNumber 0 0\<rparr>)))"

text \<open>
  \<open>commentary.proposal_id = proposalId\<close>: an existing member gets the new value in its
  place, a new member goes to the end.
\<close>

definition set_prop :: "json \<Rightarrow> jsstring \<Rightarrow> json \<Rightarrow> json" where
  "set_prop obj k v =
     (case obj of
        JObject ms \<Rightarrow>
          if k \<in> fst ` set ms then JObject (map (\<lambda>(k', x). if k' = k then (k', v) else (k', x)) ms)
          else JObject (ms @ [(k, v)])
      | _ \<Rightarrow> obj)"

text \<open>
  The request \<open>fetch\<close> sends and the response it gets. The body of the request is
  \<open>JSON.stringify(payload)\<close>; it is modelled by the document it holds.
\<close>

record request =
  to_url :: jsstring
  authorization :: jsstring
  payload :: json

record response =
  ok :: bool
  body_text :: jsstring

datatype post_end =
    MissingProposalId
  | MissingPortalUrl
  | MissingSecret
  | SkippedNoCommentary
  | PostedOk
  | FailedToPost exn

record post_result =
  post_end :: post_end
  posted :: "request list"

definition post_exit_code :: "post_end \<Rightarrow> nat" where
  "post_exit_code e = (if e = SkippedNoCommentary \<or> e = PostedOk then 0 else 1)"

text \<open>
  The lines logged after a successful request:
  \<^verbatim>\<open>
  const result = await response.json();
  console.log(`  Commentary ID: ${result.commentary_id}`);
  console.log(`  Created at: ${result.created_at}`);
  console.log(`  Cost: $${cost.toFixed(2)}`);
  console.log(`  Duration: ${Math.floor(duration / 1000)}s`);
  console.log(`  Turns: ${turns}`);
  \<close>
  \<open>cost.toFixed\<close> is a function only when \<open>cost\<close> is a number.
\<close>

definition log_result :: "jsstring \<Rightarrow> claude_output \<Rightarrow> exn + unit" where
  "log_result body out =
     (case JSON_parse body of
        None \<Rightarrow> Inl SyntaxError
      | Some result \<Rightarrow>
          (case get_prop result (lit ''commentary_id'') of
             Inl e \<Rightarrow> Inl e
           | Inr i \<Rightarrow>
               if shown_throws i then Inl TypeError
               else
                 (case get_prop result (lit ''created_at'') of
                    Inl e \<Rightarrow> Inl e
                  | Inr c \<Rightarrow>
                      if shown_throws c then Inl TypeError
                      else
                        (case cost out of
                           JNumber m e \<Rightarrow>
                             if conversion_throws (duration out) \<or> conversion_throws (turns out)
                             then Inl TypeError else Inr ()
                         | _ \<Rightarrow> Inl TypeError))))"

text \<open>
  \<open>postCommentary\<close>. \<open>argv3\<close> is \<open>process.argv[3]\<close> (\<open>theId\<close> below is the
  source's \<open>proposalId\<close>), \<open>file\<close> the text of the file at the
  output path, \<open>fetch\<close> the request to the portal (it answers or throws).
  \<^verbatim>\<open>
  if (commentary.proposal_id !== proposalId) {
    console.warn(`Warning: Proposal ID mismatch (expected ${proposalId}, got ${commentary.proposal_id})`);
    console.warn('Using proposal ID from command line argument');
    commentary.proposal_id = proposalId;
  }
  \<close>
\<close>

definition postCommentary ::
  "jsstring option \<Rightarrow> jsstring option \<Rightarrow> jsstring option \<Rightarrow> jsstring option
     \<Rightarrow> (request \<Rightarrow> exn + response) \<Rightarrow> post_result" where
  "postCommentary argv3 PORTAL_URL COMMENTARY_SECRET file fetch =
     (case argv3 of
        None \<Rightarrow> \<lparr>post_end = MissingProposalId, posted = []\<rparr>
      | Some theId \<Rightarrow>
          if theId = [] then \<lparr>post_end = MissingProposalId, posted = []\<rparr>
          else
            (case PORTAL_URL of
               None \<Rightarrow> \<lparr>post_end = MissingPortalUrl, posted = []\<rparr>
             | Some portalUrl \<Rightarrow>
                 if portalUrl = [] then \<lparr>post_end = MissingPortalUrl, posted = []\<rparr>
                 else
                   (case COMMENTARY_SECRET of
                      None \<Rightarrow> \<lparr>post_end = MissingSecret, posted = []\<rparr>
                    | Some commentarySecret \<Rightarrow>
                        if commentarySecret = [] then \<lparr>post_end = MissingSecret, posted = []\<rparr>
                        else
                          (case parseClaudeOutput file of
                             Inl e \<Rightarrow> \<lparr>post_end = FailedToPost e, posted = []\<rparr>
                           | Inr out \<Rightarrow>
                               (case commentary out of
                                  None \<Rightarrow> \<lparr>post_end = SkippedNoCommentary, posted = []\<rparr>
                                | Some doc \<Rightarrow>
                                    (case get_prop doc (lit ''proposal_id'') of
                                       Inl e \<Rightarrow> \<lparr>post_end = FailedToPost e, posted = []\<rparr>
                                     | Inr embedded \<Rightarrow>
                                         if embedded \<noteq> Val (JString theId)
                                            \<and> shown_throws embedded
                                         then \<lparr>post_end = FailedToPost TypeError, posted = []\<rparr>
                                         else
                                           (let doc' =
                                                  (if embedded \<noteq> Val (JString theId)
                                                   then set_prop doc (lit ''proposal_id'')
                                                          (JString theId)
                                                   else doc);
                                                req =
                                                  \<lparr>to_url = portalUrl @ lit ''/api/proposals/''
                                                              @ theId @ lit ''/commentary'',
                                                   authorization = lit ''Bearer '' @ commentarySecret,
                                                   payload = JObject
                                                     [(lit ''commentary'', doc'),
                                                      (lit ''metadata'', JObject
                                                         [(lit ''cost_usd'', cost out),
                                                          (lit ''duration_ms'', duration out),
                                                          (lit ''turns'', turns out)])]\<rparr>
                                            in case fetch req of
                                                 Inl e \<Rightarrow> \<lparr>post_end = FailedToPost e, posted = [req]\<rparr>
                                               | Inr resp \<Rightarrow>
                                                   if \<not> ok resp then
                                                     \<lparr>post_end = FailedToPost (Error ''HTTP error''),
                                                      posted = [req]\<rparr>
                                                   else
                                                     (case log_result (body_text resp) out of
                                                        Inl e \<Rightarrow>
                                                          \<lparr>post_end = FailedToPost e, posted = [req]\<rparr>
                                                      | Inr u \<Rightarrow>
                                                          \<lparr>post_end = PostedOk,
                                                           posted = [req]\<rparr>))))))))"

text \<open>
  An output file of the assistant with one text item that holds a commentary document,
  and two documents: one with another proposal id, one whose \<open>proposal_id\<close> is an object
  with a member \<open>toString\<close>.
\<close>

definition quoted :: "jsstring \<Rightarrow> jsstring" where
  "quoted s = [34] @ concat (map (\<lambda>c. if c = 34 \<or> c = 92 then [92, c] else [c]) s) @ [34]"

definition output_file :: "jsstring \<Rightarrow> jsstring" where
  \<open>output_file doc =
     lit ''[{"type":"assistant","message":{"content":[{"type":"text","text":''
     @ quoted doc
     @ lit ''}]}},{"type":"result","total_cost_usd":0.25,"duration_ms":9000,"num_turns":3}]''\<close>

definition other_id_doc :: jsstring where
  \<open>other_id_doc = lit ''Done. {"title":"T","overall_summary":"S","proposal_id":"999"}''\<close>

definition object_id_doc :: jsstring where
  \<open>object_id_doc = lit ''{"title":"T","overall_summary":"S","proposal_id":{"toString":1}}''\<close>

definition portal_ok :: "request \<Rightarrow> exn + response" where
  \<open>portal_ok req = Inr \<lparr>ok = True, body_text = lit ''{"commentary_id":7,"created_at":"now"}''\<rparr>\<close>


section \<open>Properties of the commit reference extractor\<close>

lemma is_hex_ci_word: "is_hex_ci c \<Longrightarrow> is_word c"
  by (auto simp: is_hex_ci_def is_word_def)

lemma hex_token_here_iff:
  assumes "0 < n"
  shows "hex_token_here n (last_opt pre) s =
           (if token_at n (pre @ s) (length pre) then Some (take n s) else None)"
proof (cases "n \<le> length s \<and> list_all is_hex_ci (take n s)")
  case False
  then show ?thesis by (auto simp: hex_token_here_def token_at_def)
next
  case True
  then obtain c cs where s: "s = c # cs" using assms by (cases s) auto
  have hc: "is_word c" using True assms s by (cases n) (auto intro: is_hex_ci_word)
  have "n - 1 < length (take n s)" using True assms by simp
  then have "is_hex_ci (take n s ! (n - 1))" using True by (simp add: list_all_length)
  then have hl: "is_word (s ! (n - 1))" using assms by (simp add: is_hex_ci_word)
  have b1: "word_boundary (last_opt pre) s \<longleftrightarrow> (pre = [] \<or> \<not> is_word (last pre))"
    using hc by (auto simp: word_boundary_def last_opt_def s)
  have b2: "word_boundary (Some (s ! (n - 1))) (drop n s) \<longleftrightarrow>
              (n = length s \<or> \<not> is_word (s ! n))"
  proof (cases "drop n s")
    case Nil
    then show ?thesis using True hl by (simp add: word_boundary_def)
  next
    case (Cons x xs)
    then have "s ! n = x" by (rule nth_via_drop)
    moreover have "n \<noteq> length s" using Cons by auto
    ultimately show ?thesis using hl Cons by (simp add: word_boundary_def)
  qed
  have l: "pre \<noteq> [] \<Longrightarrow> (pre @ s) ! (length pre - 1) = last pre"
    by (simp add: nth_append last_conv_nth)
  have r: "(pre @ s) ! (length pre + n) = s ! n" by (simp add: nth_append)
  show ?thesis
    using True assms b1 b2 l r
    by (auto simp: hex_token_here_def token_at_def)
qed

lemma hex_tokens_positions:
  assumes "0 < n"
  shows "k \<le> length s \<Longrightarrow> list_all is_hex_ci (take k s) \<Longrightarrow>
         (0 < k \<Longrightarrow> pre \<noteq> [] \<and> is_word (last pre)) \<Longrightarrow>
         hex_tokens n k (last_opt pre) s =
           map (token n (pre @ s))
             (filter (token_at n (pre @ s)) [length pre ..< Suc (length pre + length s) - n])"
proof (induction s arbitrary: pre k)
  case Nil
  then show ?case using assms by simp
next
  case (Cons c cs)
  let ?t = "pre @ c # cs"
  let ?U = "Suc (length pre + length (c # cs)) - n"
  have app: "?t = (pre @ [c]) @ cs" by simp
  have lo: "last_opt (pre @ [c]) = Some c" by (simp add: last_opt_def)
  have rng: "[length pre ..< ?U] =
      (if length pre < ?U then length pre # [length (pre @ [c]) ..< Suc (length (pre @ [c]) + length cs) - n] else [])"
    by (simp add: upt_conv_Cons)
  show ?case
  proof (cases k)
    case (Suc k')
    have hexc: "is_hex_ci c" using Cons.prems(2) Suc by simp
    have pre: "pre \<noteq> []" "is_word (last pre)" using Cons.prems(3) Suc by auto
    have "\<not> token_at n ?t (length pre)"
      using pre by (auto simp: token_at_def nth_append last_conv_nth)
    moreover have "hex_tokens n k' (last_opt (pre @ [c])) cs =
        map (token n ((pre @ [c]) @ cs))
          (filter (token_at n ((pre @ [c]) @ cs))
             [length (pre @ [c]) ..< Suc (length (pre @ [c]) + length cs) - n])"
      using Cons.prems Suc hexc by (intro Cons.IH) (auto intro: is_hex_ci_word)
    ultimately show ?thesis
      unfolding rng using Suc lo by (simp del: upt_Suc)
  next
    case 0
    show ?thesis
    proof (cases "token_at n ?t (length pre)")
      case True
      have len: "n \<le> length (c # cs)" and hx: "list_all is_hex_ci (take n (c # cs))"
        using True by (auto simp: token_at_def)
      obtain n' where n': "n = Suc n'" using assms by (cases n) auto
      have "hex_tokens n n' (last_opt (pre @ [c])) cs =
        map (token n ((pre @ [c]) @ cs))
          (filter (token_at n ((pre @ [c]) @ cs))
             [length (pre @ [c]) ..< Suc (length (pre @ [c]) + length cs) - n])"
        using len hx n' by (intro Cons.IH) (auto intro: is_hex_ci_word)
      moreover have "length pre < ?U" using len by simp
      moreover have "token n ?t (length pre) = take n (c # cs)" by (simp add: token_def)
      ultimately show ?thesis
        unfolding rng using 0 True lo hex_token_here_iff [OF assms, of pre "c # cs"] n'
        by (simp del: upt_Suc)
    next
      case False
      have "hex_tokens n 0 (last_opt (pre @ [c])) cs =
        map (token n ((pre @ [c]) @ cs))
          (filter (token_at n ((pre @ [c]) @ cs))
             [length (pre @ [c]) ..< Suc (length (pre @ [c]) + length cs) - n])"
        by (intro Cons.IH) auto
      then show ?thesis
        unfolding rng using 0 False lo hex_token_here_iff [OF assms, of pre "c # cs"]
        by (simp del: upt_Suc)
    qed
  qed
qed

lemma hex_tokens_eq: "0 < n \<Longrightarrow> hex_tokens n 0 None t = map (token n t) (token_positions n t)"
  using hex_tokens_positions [of n 0 t "[]"] by (simp add: last_opt_def token_positions_def)

lemma set_token_positions: "0 < n \<Longrightarrow> set (token_positions n t) = {i. token_at n t i}"
  by (auto simp: token_positions_def token_at_def)

lemma sorted_token_positions: "sorted (token_positions n t)"
  by (simp add: token_positions_def sorted_wrt_filter)

lemma extractCommitHash_eq:
  "extractCommitHash t =
     (case token_positions 40 t of [] \<Rightarrow> None | i # _ \<Rightarrow> Some (token 40 t i))"
  by (simp add: extractCommitHash_def match_hex_g_def hex_tokens_eq split: list.splits)

lemma token_positions_first:
  assumes "0 < n" "token_at n t i" "\<forall>l<i. \<not> token_at n t l"
  shows "\<exists>rest. token_positions n t = i # rest"
proof -
  have mem: "i \<in> set (token_positions n t)" using assms by (simp add: set_token_positions)
  then obtain p ps where ps: "token_positions n t = p # ps" by (cases "token_positions n t") auto
  have "p \<in> set (token_positions n t)" using ps by simp
  then have "token_at n t p" using assms(1) by (simp add: set_token_positions)
  then have "\<not> p < i" using assms(3) by blast
  moreover have "p \<le> i" using mem ps sorted_token_positions [of n t] by auto
  ultimately show ?thesis using ps by simp
qed

text \<open>
  C8. For every proposal text with several distinct 40-hex tokens, \<open>extractCommitHash\<close>
  returns the first one: when a token starts at \<open>i\<close>, another, different token starts at
  a later index \<open>j\<close>, and no token starts before \<open>i\<close>, the result is the token at \<open>i\<close>.
\<close>

theorem extractCommitHash_first_occurrence:
  assumes "token_at 40 t i" and "token_at 40 t j" and "i < j"
    and "token 40 t i \<noteq> token 40 t j"
    and "\<forall>l<i. \<not> token_at 40 t l"
  shows "extractCommitHash t = Some (token 40 t i)"
proof -
  obtain rest where "token_positions 40 t = i # rest"
    using token_positions_first [of 40 t i] assms by auto
  then show ?thesis by (simp add: extractCommitHash_eq)
qed

theorem extractCommitHash_first_occurrence_witness:
  "token_at 40 two_commits 7 \<and> token_at 40 two_commits 52 \<and> (7::nat) < 52
   \<and> token 40 two_commits 7 \<noteq> token 40 two_commits 52
   \<and> \<not> (\<exists>l<7. token_at 40 two_commits l)
   \<and> extractCommitHash two_commits = Some (lit ''abcdef0123456789abcdef0123456789abcdef01'')"
proof -
  have a: "token_at 40 two_commits 7" by code_simp
  have b: "token_at 40 two_commits 52" by code_simp
  have c: "token 40 two_commits 7 \<noteq> token 40 two_commits 52" by code_simp
  have d: "\<forall>l<7. \<not> token_at 40 two_commits l" by code_simp
  have e: "token 40 two_commits 7 = lit ''abcdef0123456789abcdef0123456789abcdef01''"
    by code_simp
  have r: "extractCommitHash two_commits = Some (token 40 two_commits 7)"
    using extractCommitHash_first_occurrence [OF a b _ c d] by simp
  have d': "\<not> (\<exists>l<7. token_at 40 two_commits l)" using d by blast
  show ?thesis using a b c d' r e by (intro conjI) simp_all
qed

text \<open>
  C3, as the code has it. For every proposal text with exactly one 40-hex token (in any
  letter case), \<open>extractCommitHash\<close> returns that token as it stands in the text, its
  letter case unchanged; for every text with no such token it returns \<open>null\<close>.
\<close>

theorem extractCommitHash_single_token:
  "(token_at 40 t i \<and> (\<forall>j. token_at 40 t j \<longrightarrow> j = i) \<longrightarrow> extractCommitHash t = Some (token 40 t i))
   \<and> ((\<forall>j. \<not> token_at 40 t j) \<longrightarrow> extractCommitHash t = None)"
proof (intro conjI impI)
  assume a: "token_at 40 t i \<and> (\<forall>j. token_at 40 t j \<longrightarrow> j = i)"
  then have "\<forall>l<i. \<not> token_at 40 t l" by auto
  then obtain rest where "token_positions 40 t = i # rest"
    using token_positions_first [of 40 t i] a by auto
  then show "extractCommitHash t = Some (token 40 t i)" by (simp add: extractCommitHash_eq)
next
  assume "\<forall>j. \<not> token_at 40 t j"
  then have "set (token_positions 40 t) = {}" by (simp add: set_token_positions)
  then show "extractCommitHash t = None" by (simp add: extractCommitHash_eq)
qed

theorem extractCommitHash_single_token_witness:
  "token_at 40 upper_commit 8 \<and> \<not> (\<exists>j. token_at 40 upper_commit j \<and> j \<noteq> 8)
   \<and> extractCommitHash upper_commit = Some (lit ''ABCDEF0123456789ABCDEF0123456789ABCDEF01'')
   \<and> \<not> (\<exists>j. token_at 40 (lit ''no commit here'') j)
   \<and> extractCommitHash (lit ''no commit here'') = None"
proof -
  have p: "token_positions 40 upper_commit = [8]" by code_simp
  have a: "token_at 40 upper_commit 8" by code_simp
  have "{j. token_at 40 upper_commit j} = {8}"
    using set_token_positions [of 40 upper_commit] p by simp
  then have u: "\<forall>j. token_at 40 upper_commit j \<longrightarrow> j = 8" by blast
  have q: "token_positions 40 (lit ''no commit here'') = []" by code_simp
  have "{j. token_at 40 (lit ''no commit here'') j} = {}"
    using set_token_positions [of 40 "lit ''no commit here''"] q by simp
  then have z: "\<forall>j. \<not> token_at 40 (lit ''no commit here'') j" by blast
  have e: "token 40 upper_commit 8 = lit ''ABCDEF0123456789ABCDEF0123456789ABCDEF01''" by code_simp
  have r1: "extractCommitHash upper_commit = Some (token 40 upper_commit 8)"
    using extractCommitHash_single_token [of upper_commit 8] a u by blast
  have r2: "extractCommitHash (lit ''no commit here'') = None"
    using extractCommitHash_single_token [of "lit ''no commit here''" 0] z by blast
  have r1': "extractCommitHash upper_commit = Some (lit ''ABCDEF0123456789ABCDEF0123456789ABCDEF01'')"
    using r1 e by simp
  show ?thesis using a u z r1' r2 by blast
qed

text \<open>
  C3 as stated fails: the only token of \<open>upper_commit\<close> is in upper case, and the result
  is not its lowercase form.
\<close>

theorem extractCommitHash_lowercase_counterexample:
  "token_positions 40 upper_commit = [8]
   \<and> extractCommitHash upper_commit \<noteq> Some (to_lower (token 40 upper_commit 8))"
  by code_simp


section \<open>Properties of the expected-hash extractor\<close>

lemma lazy_ok_0: "lazy_ok n s 0 \<longleftrightarrow> n \<le> length s \<and> list_all is_hex_ci (take n s)"
  by (simp add: lazy_ok_def)

lemma lazy_ok_Suc: "lazy_ok n (c # cs) (Suc k) \<longleftrightarrow> c \<noteq> 10 \<and> lazy_ok n cs k"
  by (auto simp: lazy_ok_def)

lemma lazy_hex_None: "0 < n \<Longrightarrow> lazy_hex n s = None \<Longrightarrow> \<not> lazy_ok n s k"
proof (induction s arbitrary: k)
  case Nil
  then show ?case by (simp add: lazy_ok_def)
next
  case (Cons c cs)
  show ?case
  proof (cases k)
    case 0
    then show ?thesis using Cons.prems by (auto simp: lazy_ok_0 split: if_splits)
  next
    case (Suc k')
    then show ?thesis using Cons by (auto simp: lazy_ok_0 lazy_ok_Suc split: if_splits)
  qed
qed

lemma lazy_hex_Some:
  "0 < n \<Longrightarrow> lazy_hex n s = Some h \<Longrightarrow>
     \<exists>k. lazy_ok n s k \<and> (\<forall>j<k. \<not> lazy_ok n s j) \<and> h = take n (drop k s)"
proof (induction s)
  case Nil
  then show ?case by simp
next
  case (Cons c cs)
  show ?case
  proof (cases "lazy_ok n (c # cs) 0")
    case True
    then have "h = take n (c # cs)" using Cons.prems by (simp add: lazy_ok_0)
    then show ?thesis using True by (intro exI [of _ 0]) simp
  next
    case False
    then have c: "c \<noteq> 10" and r: "lazy_hex n cs = Some h"
      using Cons.prems by (auto simp: lazy_ok_0 split: if_splits)
    from Cons.IH [OF Cons.prems(1) r] obtain k where
      k: "lazy_ok n cs k" "\<forall>j<k. \<not> lazy_ok n cs j" "h = take n (drop k cs)" by blast
    have "\<forall>j<Suc k. \<not> lazy_ok n (c # cs) j"
    proof (intro allI impI)
      fix j assume "j < Suc k"
      then show "\<not> lazy_ok n (c # cs) j" using False k(2) by (cases j) (auto simp: lazy_ok_Suc)
    qed
    then show ?thesis using k c by (intro exI [of _ "Suc k"]) (simp add: lazy_ok_Suc)
  qed
qed

lemma filter_upt_first:
  assumes "p \<le> q" "q < n" "P q" "\<forall>k. p \<le> k \<and> k < q \<longrightarrow> \<not> P k"
  shows "\<exists>rest. filter P [p ..< n] = q # rest"
proof -
  have "[p ..< n] = [p ..< q] @ q # [Suc q ..< n]"
    using assms(1,2) by (metis le_Suc_ex less_imp_le_nat upt_add_eq_append upt_conv_Cons)
  moreover have "filter P [p ..< q] = []" using assms(4) by (auto simp: filter_empty_conv)
  ultimately show ?thesis using assms(3) by simp
qed

lemma filter_upt_none: "(\<forall>k. p \<le> k \<and> k < n \<longrightarrow> \<not> P k) \<Longrightarrow> filter P [p ..< n] = []"
  by (auto simp: filter_empty_conv)

lemma length_labels:
  "length (lit ''wasm'') = 4" "length (lit ''module'') = 6" "length (lit ''sha256'') = 6"
  by (simp_all add: lit_def)

lemma ci_prefix_hd: "ci_prefix l s \<Longrightarrow> l \<noteq> [] \<Longrightarrow> s \<noteq> [] \<and> to_lower [hd s] = [hd l]"
  by (cases s; cases l) (auto simp: ci_prefix_def to_lower_def)

lemma label_here_None: "label_here s = None \<Longrightarrow> l \<in> set labels \<Longrightarrow> \<not> ci_prefix l s"
  by (auto simp: label_here_def labels_def split: if_splits)

lemma labels_exclusive:
  assumes "l \<in> set labels" "l' \<in> set labels" "ci_prefix l s" "ci_prefix l' s"
  shows "l' = l"
proof -
  have ne: "l \<noteq> []" "l' \<noteq> []" using assms(1,2) by (auto simp: labels_def lit_def)
  have "[hd l] = [hd l']"
    using ci_prefix_hd [OF assms(3) ne(1)] ci_prefix_hd [OF assms(4) ne(2)] by simp
  then show ?thesis using assms(1,2) by (auto simp: labels_def lit_def)
qed

lemma label_here_Some:
  assumes "label_here s = Some rest"
  shows "\<exists>l \<in> set labels. ci_prefix l s \<and> rest = drop (length l) s"
  using assms by (auto simp: label_here_def labels_def length_labels split: if_splits)

lemma labelled_at_label:
  assumes "l \<in> set labels" "ci_prefix l (drop p t)"
  shows "labelled_at t p q \<longleftrightarrow>
           p + length l \<le> q \<and> lazy_ok 64 (drop (p + length l) t) (q - (p + length l))"
proof -
  have "labelled_at t p q \<longleftrightarrow>
      p + length l \<le> q
      \<and> list_all (\<lambda>c. c \<noteq> 10) (take (q - (p + length l)) (drop (p + length l) t))
      \<and> hex_run 64 t q"
    unfolding labelled_at_def using assms labels_exclusive [OF assms(1) _ assms(2)] by blast
  also have "\<dots> \<longleftrightarrow> p + length l \<le> q \<and> lazy_ok 64 (drop (p + length l) t) (q - (p + length l))"
    by (auto simp: lazy_ok_def hex_run_def)
  finally show ?thesis .
qed

lemma row_none:
  assumes "label_here (drop p t) = None"
  shows "row t p = []"
  using label_here_None [OF assms] by (auto simp: row_def labelled_at_def filter_empty_conv)

lemma row_label_none:
  assumes "label_here (drop p t) = Some rest" "lazy_hex 64 rest = None"
  shows "row t p = []"
proof -
  obtain l where l: "l \<in> set labels" "ci_prefix l (drop p t)" "rest = drop (length l) (drop p t)"
    using label_here_Some [OF assms(1)] by blast
  have rest: "rest = drop (p + length l) t" using l(3) by (simp add: add.commute)
  have "\<not> lazy_ok 64 (drop (p + length l) t) k" for k
    using lazy_hex_None [of 64 rest k] assms(2) rest by simp
  then show ?thesis by (simp add: row_def labelled_at_label [OF l(1,2)])
qed

lemma row_label_some:
  assumes "label_here (drop p t) = Some rest" "lazy_hex 64 rest = Some h"
  shows "\<exists>q more. row t p = (p, q) # more \<and> h = token 64 t q"
proof -
  obtain l where l: "l \<in> set labels" "ci_prefix l (drop p t)" "rest = drop (length l) (drop p t)"
    using label_here_Some [OF assms(1)] by blast
  let ?b = "p + length l"
  have rest: "rest = drop ?b t" using l(3) by (simp add: add.commute)
  obtain k where k: "lazy_ok 64 rest k" "\<forall>j<k. \<not> lazy_ok 64 rest j" "h = take 64 (drop k rest)"
    using lazy_hex_Some [of 64 rest h] assms(2) by auto
  let ?q = "?b + k"
  have at: "labelled_at t p ?q" using k(1) rest by (simp add: labelled_at_label [OF l(1,2)])
  have "k + 64 \<le> length rest" using k(1) by (simp add: lazy_ok_def)
  then have lt: "?q < length t" using rest by simp
  have least: "\<forall>j. p \<le> j \<and> j < ?q \<longrightarrow> \<not> labelled_at t p j"
  proof (intro allI impI)
    fix j assume j: "p \<le> j \<and> j < ?q"
    show "\<not> labelled_at t p j"
    proof (cases "?b \<le> j")
      case True
      then have "j - ?b < k" using j by linarith
      then show ?thesis using k(2) rest by (simp add: labelled_at_label [OF l(1,2)])
    next
      case False
      then show ?thesis by (simp add: labelled_at_label [OF l(1,2)])
    qed
  qed
  obtain more where "filter (labelled_at t p) [p ..< length t] = ?q # more"
    using filter_upt_first [of p ?q "length t" "labelled_at t p"] lt at least by auto
  moreover have "h = token 64 t ?q" using k(3) rest by (simp add: token_def add.commute)
  ultimately show ?thesis by (simp add: row_def)
qed

lemma labelled_hash_suffix:
  "t = pre @ s \<Longrightarrow>
   labelled_hash s =
     (case concat (map (row t) [length pre ..< length t]) of
        [] \<Rightarrow> None | (p, q) # _ \<Rightarrow> Some (token 64 t q))"
proof (induction s arbitrary: pre)
  case Nil
  then show ?case by simp
next
  case (Cons c cs)
  have t: "t = (pre @ [c]) @ cs" using Cons.prems by simp
  have ih: "labelled_hash cs =
     (case concat (map (row t) [Suc (length pre) ..< length t]) of
        [] \<Rightarrow> None | (p, q) # _ \<Rightarrow> Some (token 64 t q))"
    using Cons.IH [OF t] by (simp del: upt_Suc)
  have rng: "[length pre ..< length t] = length pre # [Suc (length pre) ..< length t]"
  proof -
    have "length pre < length t" using Cons.prems by simp
    then show ?thesis by (rule upt_conv_Cons)
  qed
  have d: "drop (length pre) t = c # cs" using Cons.prems by simp
  show ?case
  proof (cases "label_here (c # cs)")
    case None
    then have "row t (length pre) = []" using row_none [of "length pre" t] d by simp
    then show ?thesis unfolding rng using None ih by simp
  next
    case (Some rest)
    note lab = Some
    show ?thesis
    proof (cases "lazy_hex 64 rest")
      case None
      then have "row t (length pre) = []"
        using row_label_none [of "length pre" t rest] lab d by simp
      then show ?thesis unfolding rng using None lab ih by simp
    next
      case (Some h)
      obtain q more where "row t (length pre) = (length pre, q) # more" "h = token 64 t q"
        using row_label_some [of "length pre" t rest h] Some lab d by auto
      then show ?thesis unfolding rng using Some lab by simp
    qed
  qed
qed

lemma labelled_hash_eq:
  "labelled_hash t =
     (case labelled_positions t of [] \<Rightarrow> None | (p, q) # _ \<Rightarrow> Some (token 64 t q))"
proof -
  have "labelled_positions t = concat (map (row t) [0 ..< length t])"
    by (simp add: labelled_positions_def row_def [abs_def])
  then show ?thesis using labelled_hash_suffix [of t "[]" t] by simp
qed

lemma set_labelled_positions: "set (labelled_positions t) = {(p, q). labelled_at t p q}"
proof -
  have b: "labelled_at t p q \<Longrightarrow> p \<le> q \<and> q < length t" for p q
    by (auto simp: labelled_at_def hex_run_def)
  show ?thesis
  proof (intro set_eqI iffI)
    fix x assume "x \<in> set (labelled_positions t)"
    then show "x \<in> {(p, q). labelled_at t p q}" by (auto simp: labelled_positions_def)
  next
    fix x assume "x \<in> {(p, q). labelled_at t p q}"
    then obtain p q where x: "x = (p, q)" "labelled_at t p q" by auto
    then have "p < length t" "p \<le> q" "q < length t" using b [of p q] by auto
    then show "x \<in> set (labelled_positions t)"
      using x by (auto simp: labelled_positions_def intro!: bexI [of _ p])
  qed
qed

text \<open>
  C9, as the code has it. When no structured artifact hash exists, \<open>extractWasmHash\<close>
  first returns the 64 hexadecimal digits that follow, on the same line, the leftmost
  label among \<open>wasm\<close>, \<open>module\<close> and \<open>sha256\<close> (in any letter case) that is followed by
  such a run, taking the run nearest to that label; if no label is followed by one, it
  returns the first bare 64-hex token of the text; if neither exists it returns
  \<open>null\<close>. The word \<open>hash\<close> alone is not a label.
\<close>

theorem extractWasmHash_labelled_then_bare:
  "extractWasmHash t =
     (case labelled_positions t of
        (p, q) # _ \<Rightarrow> Some (token 64 t q)
      | [] \<Rightarrow> (case token_positions 64 t of i # _ \<Rightarrow> Some (token 64 t i) | [] \<Rightarrow> None))"
  by (simp add: extractWasmHash_def labelled_hash_eq match_hex_g_def hex_tokens_eq
      split: list.splits)

text \<open>
  C9 as stated fails for the label \<open>hash\<close>: in the text \<open>hash_text ''hash''\<close> the
  second hash stands behind \<open>hash:\<close> and the first one is bare, and the result is the
  first one.
\<close>

theorem extractWasmHash_hash_label_counterexample:
  "take 6 (drop 65 (hash_text ''hash'')) = lit ''hash: ''
   \<and> token_at 64 (hash_text ''hash'') 71 \<and> token 64 (hash_text ''hash'') 71 = hash_b
   \<and> extractWasmHash (hash_text ''hash'') = Some hash_a \<and> hash_a \<noteq> hash_b"
  by code_simp


section \<open>Properties of the plan parser\<close>

text \<open>A number with an exponent of at least \<open>-323\<close> is zero only when its digits are.\<close>

lemma pow_10_323: "(10::int) ^ 323 < 2 ^ 1075" by simp
lemma number_is_zero_code [code]:
  "number_is_zero m e =
     (if m = 0 then True
      else if - 323 \<le> e then False
      else \<bar>m\<bar> * 2 ^ 1075 \<le> 10 ^ nat (- e))"
proof (cases "m = 0 \<or> 0 \<le> e \<or> e < - 323")
  case True
  then show ?thesis by (auto simp: number_is_zero_def)
next
  case False
  then have "nat (- e) \<le> 323" by linarith
  then have "(10::int) ^ nat (- e) \<le> 10 ^ 323" by (intro power_increasing) simp_all
  then have a: "(10::int) ^ nat (- e) < 2 ^ 1075" using pow_10_323 by linarith
  have "1 \<le> \<bar>m\<bar>" using False by linarith
  then have "1 * (2::int) ^ 1075 \<le> \<bar>m\<bar> * 2 ^ 1075" by (intro mult_right_mono) simp_all
  then have n: "\<not> \<bar>m\<bar> * 2 ^ 1075 \<le> 10 ^ nat (- e)" using a by linarith
  have f: "m \<noteq> 0" "\<not> 0 \<le> e" "- 323 \<le> e" using False by auto
  show ?thesis unfolding number_is_zero_def using n f by (simp only: if_False if_True simp_thms)
qed

text \<open>A number of fewer than 19 digits with an exponent of at most 290 is finite.\<close>

lemma pow_10_308: "(10::int) ^ 308 < 2 ^ 1024 - 2 ^ 970" by simp

lemma number_is_infinite_code [code]:
  "number_is_infinite m e =
     (if \<bar>m\<bar> < 1000000000000000000 \<and> e \<le> 290 then False
      else if 0 \<le> e then 2 ^ 1024 - 2 ^ 970 \<le> \<bar>m\<bar> * 10 ^ nat e
      else (2 ^ 1024 - 2 ^ 970) * 10 ^ nat (- e) \<le> \<bar>m\<bar>)"
proof (cases "\<bar>m\<bar> < 1000000000000000000 \<and> e \<le> 290")
  case False
  then show ?thesis unfolding number_is_infinite_def by (simp only: if_False)
next
  case True
  then have m: "\<bar>m\<bar> < 10 ^ 18" and e: "e \<le> 290" by simp_all
  have "\<not> number_is_infinite m e"
  proof (cases "0 \<le> e")
    case True
    then have "nat e \<le> 290" using e by linarith
    then have "(10::int) ^ nat e \<le> 10 ^ 290" by (intro power_increasing) simp_all
    moreover have "\<bar>m\<bar> \<le> 10 ^ 18" using m by linarith
    ultimately have "\<bar>m\<bar> * 10 ^ nat e \<le> 10 ^ 18 * 10 ^ 290"
      by (intro mult_mono) simp_all
    also have "\<dots> = (10::int) ^ 308" by (simp add: power_add [symmetric])
    finally have "\<bar>m\<bar> * 10 ^ nat e < 2 ^ 1024 - 2 ^ 970" using pow_10_308 by linarith
    then show ?thesis using True by (simp only: number_is_infinite_def if_True not_le)
  next
    case False
    have "(1::int) \<le> 10 ^ nat (- e)" by simp
    then have k: "(2 ^ 1024 - 2 ^ 970) * (1::int) \<le> (2 ^ 1024 - 2 ^ 970) * 10 ^ nat (- e)"
      by (intro mult_left_mono) simp_all
    note m
    also have "(10::int) ^ 18 < 10 ^ 308" by (intro power_strict_increasing) simp_all
    also note pow_10_308
    also have "(2 ^ 1024 - 2 ^ 970 :: int) \<le> (2 ^ 1024 - 2 ^ 970) * 10 ^ nat (- e)"
      using k by (simp only: mult_1_right)
    finally have l: "\<bar>m\<bar> < (2 ^ 1024 - 2 ^ 970) * 10 ^ nat (- e)" .
    have d: "number_is_infinite m e \<longleftrightarrow> (2 ^ 1024 - 2 ^ 970) * 10 ^ nat (- e) \<le> \<bar>m\<bar>"
      using False by (simp only: number_is_infinite_def if_False)
    show ?thesis unfolding d using l by (simp only: not_le)
  qed
  then show ?thesis using True by (simp only: if_True simp_thms)
qed

lemma literal_code [code_unfold]:
  "lit ''true'' = [116, 114, 117, 101]"
  "lit ''false'' = [102, 97, 108, 115, 101]"
  "lit ''null'' = [110, 117, 108, 108]"
  "lit ''json'' = [106, 115, 111, 110]"
  "lit ''steps'' = [115, 116, 101, 112, 115]"
  "lit ''wasmOutputPath'' = [119, 97, 115, 109, 79, 117, 116, 112, 117, 116, 80, 97, 116, 104]"
  by (simp_all add: lit_def)

text \<open>
  C1, as the code has it. For every inferrer response, \<open>parseGeminiResponse\<close> raises
  its error for each of: a \<open>steps\<close> field that is not an array, a response wrapped in code
  fencing without a valid JSON body, and valid JSON missing the \<open>steps\<close> key; none of
  these becomes a plan. (An empty \<open>steps\<close> array is not among them: see the
  counterexample.)
\<close>

theorem parseGeminiResponse_malformed:
  "(JSON_parse (json_body r) = Some v \<and> get_prop v (lit ''steps'') = Inr (Val x)
      \<and> (\<forall>xs. x \<noteq> JArray xs)
     \<longrightarrow> parseGeminiResponse r
          = Inl (FailedToParseLLMResponse (Error ''Invalid response: steps must be an array'')))
   \<and> (starts_with fence (js_trim r)
        \<and> JSON_parse (strip_close_fence (strip_open_fence (js_trim r))) = None
     \<longrightarrow> parseGeminiResponse r = Inl (FailedToParseLLMResponse SyntaxError))
   \<and> (JSON_parse (json_body r) = Some v \<and> get_prop v (lit ''steps'') = Inr Undefined
     \<longrightarrow> parseGeminiResponse r
          = Inl (FailedToParseLLMResponse (Error ''Invalid response: steps must be an array'')))"
proof (intro conjI impI)
  assume a: "JSON_parse (json_body r) = Some v \<and> get_prop v (lit ''steps'') = Inr (Val x)
      \<and> (\<forall>xs. x \<noteq> JArray xs)"
  then show "parseGeminiResponse r
          = Inl (FailedToParseLLMResponse (Error ''Invalid response: steps must be an array''))"
    by (cases x) (simp_all add: parseGeminiResponse_def)
next
  assume "starts_with fence (js_trim r)
        \<and> JSON_parse (strip_close_fence (strip_open_fence (js_trim r))) = None"
  then have "JSON_parse (json_body r) = None" by (simp add: json_body_def)
  then show "parseGeminiResponse r = Inl (FailedToParseLLMResponse SyntaxError)"
    by (simp add: parseGeminiResponse_def)
next
  assume "JSON_parse (json_body r) = Some v \<and> get_prop v (lit ''steps'') = Inr Undefined"
  then show "parseGeminiResponse r
          = Inl (FailedToParseLLMResponse (Error ''Invalid response: steps must be an array''))"
    by (simp add: parseGeminiResponse_def)
qed

theorem parseGeminiResponse_malformed_witness:
  "JSON_parse (json_body steps_string_response)
     = Some (JObject [(lit ''steps'', JString (lit ''make'')),
                      (lit ''wasmOutputPath'', JString (lit ''out.wasm''))])
   \<and> parseGeminiResponse steps_string_response
       = Inl (FailedToParseLLMResponse (Error ''Invalid response: steps must be an array''))
   \<and> starts_with fence (js_trim fenced_prose_response)
   \<and> JSON_parse (strip_close_fence (strip_open_fence (js_trim fenced_prose_response))) = None
   \<and> parseGeminiResponse fenced_prose_response = Inl (FailedToParseLLMResponse SyntaxError)
   \<and> JSON_parse (json_body no_steps_response)
       = Some (JObject [(lit ''wasmOutputPath'', JString (lit ''out.wasm''))])
   \<and> parseGeminiResponse no_steps_response
       = Inl (FailedToParseLLMResponse (Error ''Invalid response: steps must be an array''))"
proof -
  let ?v1 = "JObject [(lit ''steps'', JString (lit ''make'')),
                      (lit ''wasmOutputPath'', JString (lit ''out.wasm''))]"
  let ?v3 = "JObject [(lit ''wasmOutputPath'', JString (lit ''out.wasm''))]"
  have p1: "JSON_parse (json_body steps_string_response) = Some ?v1" by code_simp
  have g1: "get_prop ?v1 (lit ''steps'') = Inr (Val (JString (lit ''make'')))" by code_simp
  have r1: "parseGeminiResponse steps_string_response
       = Inl (FailedToParseLLMResponse (Error ''Invalid response: steps must be an array''))"
    using parseGeminiResponse_malformed [of steps_string_response ?v1 "JString (lit ''make'')"]
      p1 g1 by simp
  have f2: "starts_with fence (js_trim fenced_prose_response)" by code_simp
  have p2: "JSON_parse (strip_close_fence (strip_open_fence (js_trim fenced_prose_response))) = None"
    by code_simp
  have r2: "parseGeminiResponse fenced_prose_response = Inl (FailedToParseLLMResponse SyntaxError)"
    using parseGeminiResponse_malformed [of fenced_prose_response JNull JNull] f2 p2 by simp
  have p3: "JSON_parse (json_body no_steps_response) = Some ?v3" by code_simp
  have g3: "get_prop ?v3 (lit ''steps'') = Inr Undefined" by code_simp
  have r3: "parseGeminiResponse no_steps_response
       = Inl (FailedToParseLLMResponse (Error ''Invalid response: steps must be an array''))"
    using parseGeminiResponse_malformed [of no_steps_response ?v3 JNull] p3 g3 by simp
  show ?thesis using p1 r1 f2 p2 r2 p3 r3 by (intro conjI)
qed

text \<open>
  C1 as stated fails for the empty \<open>steps\<close> array: the response is accepted as a plan
  with no steps.
\<close>

theorem parseGeminiResponse_empty_steps_counterexample:
  "parseGeminiResponse empty_steps_response
     = Inr \<lparr>steps = [], wasmOutputPath = JString (lit ''out.wasm'')\<rparr>"
  by code_simp


section \<open>Properties of the pipeline\<close>

lemma parseGeminiResponse_accepts:
  "(\<exists>plan. parseGeminiResponse r = Inr plan)
     \<longleftrightarrow> (\<exists>v xs. JSON_parse (json_body r) = Some v
                 \<and> get_prop v (lit ''steps'') = Inr (Val (JArray xs)))"
proof
  assume "\<exists>plan. parseGeminiResponse r = Inr plan"
  then show "\<exists>v xs. JSON_parse (json_body r) = Some v
                 \<and> get_prop v (lit ''steps'') = Inr (Val (JArray xs))"
    by (auto simp: parseGeminiResponse_def
        split: option.splits sum.splits jsval.splits json.splits)
next
  assume "\<exists>v xs. JSON_parse (json_body r) = Some v
                 \<and> get_prop v (lit ''steps'') = Inr (Val (JArray xs))"
  then obtain v xs where v: "JSON_parse (json_body r) = Some v"
      "get_prop v (lit ''steps'') = Inr (Val (JArray xs))" by blast
  then obtain ms where "v = JObject ms"
    by (cases v) (auto simp: get_prop_def)
  then obtain p where "get_prop v (lit ''wasmOutputPath'') = Inr p"
    by (auto simp: get_prop_def)
  then show "\<exists>plan. parseGeminiResponse r = Inr plan"
    using v by (simp add: parseGeminiResponse_def)
qed

text \<open>What an accepted response says about the fields of the plan.\<close>

lemma parseGeminiResponse_fields:
  assumes "parseGeminiResponse r = Inr plan"
  shows "\<exists>v p. JSON_parse (json_body r) = Some v
           \<and> get_prop v (lit ''steps'') = Inr (Val (JArray (steps plan)))
           \<and> get_prop v (lit ''wasmOutputPath'') = Inr p
           \<and> (truthy p \<longrightarrow> p = Val (wasmOutputPath plan))
           \<and> (\<not> truthy p \<longrightarrow> wasmOutputPath plan = JString (lit ''output.wasm''))
           \<and> (conversion_throws (wasmOutputPath plan) \<longleftrightarrow> shown_throws p)"
proof -
  obtain v where v: "JSON_parse (json_body r) = Some v"
    using assms by (auto simp: parseGeminiResponse_def split: option.splits)
  obtain xs where xs: "get_prop v (lit ''steps'') = Inr (Val (JArray xs))"
    using assms v
    by (auto simp: parseGeminiResponse_def split: sum.splits jsval.splits json.splits)
  obtain p where p: "get_prop v (lit ''wasmOutputPath'') = Inr p"
    using assms v xs by (auto simp: parseGeminiResponse_def split: sum.splits)
  have plan: "plan = \<lparr>steps = xs, wasmOutputPath =
      (case p of Val w \<Rightarrow> if truthy p then w else JString (lit ''output.wasm'')
               | Undefined \<Rightarrow> JString (lit ''output.wasm''))\<rparr>"
    using assms v xs p by (auto simp: parseGeminiResponse_def)
  have a: "steps plan = xs" using plan by simp
  have b: "(truthy p \<longrightarrow> p = Val (wasmOutputPath plan))
           \<and> (\<not> truthy p \<longrightarrow> wasmOutputPath plan = JString (lit ''output.wasm''))"
    using plan by (cases p) (auto simp: truthy_def)
  have c: "conversion_throws (wasmOutputPath plan) \<longleftrightarrow> shown_throws p"
  proof (cases "truthy p")
    case True
    then have "p = Val (wasmOutputPath plan)" using b by simp
    then show ?thesis by (simp add: shown_throws_def)
  next
    case False
    then have "\<not> conversion_throws (wasmOutputPath plan)" using b by simp
    moreover have "\<not> shown_throws p"
    proof (cases p)
      case Undefined
      then show ?thesis by (simp add: shown_throws_def)
    next
      case (Val x)
      then show ?thesis using False by (cases x) (simp_all add: shown_throws_def truthy_def)
    qed
    ultimately show ?thesis by simp
  qed
  show ?thesis using v xs p a b c by auto
qed

text \<open>The run of \<open>main\<close> for a proposal with a commit hash and a response of the inferrer.\<close>

lemma extract_main_rejected:
  assumes "proposal_json w = Some pd" and "commitHash pd = Some h" and "h \<noteq> []"
    and "key \<noteq> []" and "generate (build_prompt P pd) = Inr r"
    and "parseGeminiResponse r = Inl f"
  shows "extract_main P (Some key) generate w
           = \<lparr>ws = w, ended = ErrorParsing f, gemini_prompts = [build_prompt P pd]\<rparr>"
  using assms by (simp add: extract_main_def callGemini_def)

lemma extract_main_parsed:
  assumes "proposal_json w = Some pd" and "commitHash pd = Some h" and "h \<noteq> []"
    and "key \<noteq> []" and "generate (build_prompt P pd) = Inr r"
    and "parseGeminiResponse r = Inr plan"
  shows "extract_main P (Some key) generate w
           = (if conversion_throws (wasmOutputPath plan) then
                \<lparr>ws = w, ended = ErrorExtracting TypeError,
                 gemini_prompts = [build_prompt P pd]\<rparr>
              else
                \<lparr>ws = w\<lparr>build_steps_json := Some
                         \<lparr>steps = map stringified (steps plan),
                          wasmOutputPath = stringified (wasmOutputPath plan),
                          forCommit = h\<rparr>\<rparr>,
                 ended = (if list_ex conversion_throws (steps plan)
                          then ErrorExtracting TypeError else Stage2Done),
                 gemini_prompts = [build_prompt P pd]\<rparr>)"
  using assms by (simp add: extract_main_def callGemini_def)

text \<open>
  C4, as the code has it. For a proposal with a commit hash and a response \<open>r\<close> of the
  inferrer, the run of \<open>main\<close> ends normally exactly when \<open>r\<close>, trimmed and with one
  surrounding Markdown fence removed if it starts with one, is JSON whose \<open>steps\<close> member
  is an array, and neither its \<open>wasmOutputPath\<close> nor any of its steps is a value whose
  conversion to a string throws. For every other response the run fails hard, with the
  exit status 1: with the parser's error and nothing written; or with a \<open>TypeError\<close>,
  where nothing is written when it is the output path that cannot be converted, and the
  plan is already written when it is a step. A fenced response with such a body is
  accepted.
\<close>

theorem extract_main_accepts_iff:
  assumes "proposal_json w = Some pd" and "commitHash pd = Some h" and "h \<noteq> []"
    and "key \<noteq> []" and "generate (build_prompt P pd) = Inr r"
  shows "(ended (extract_main P (Some key) generate w) = Stage2Done
            \<longleftrightarrow> (\<exists>v xs p. JSON_parse (json_body r) = Some v
                        \<and> get_prop v (lit ''steps'') = Inr (Val (JArray xs))
                        \<and> get_prop v (lit ''wasmOutputPath'') = Inr p
                        \<and> \<not> shown_throws p \<and> \<not> list_ex conversion_throws xs))
         \<and> (ended (extract_main P (Some key) generate w) \<noteq> Stage2Done
              \<longrightarrow> stage2_exit_code (ended (extract_main P (Some key) generate w)) = 1
                  \<and> ((\<exists>f. ended (extract_main P (Some key) generate w) = ErrorParsing f
                           \<and> parseGeminiResponse r = Inl f
                           \<and> ws (extract_main P (Some key) generate w) = w)
                      \<or> (\<exists>plan. ended (extract_main P (Some key) generate w)
                                    = ErrorExtracting TypeError
                           \<and> parseGeminiResponse r = Inr plan
                           \<and> (if conversion_throws (wasmOutputPath plan)
                               then ws (extract_main P (Some key) generate w) = w
                               else list_ex conversion_throws (steps plan)
                                    \<and> ws (extract_main P (Some key) generate w)
                                        = w\<lparr>build_steps_json := Some
                                              \<lparr>steps = map stringified (steps plan),
                                               wasmOutputPath = stringified (wasmOutputPath plan),
                                               forCommit = h\<rparr>\<rparr>))))"
proof (cases "parseGeminiResponse r")
  case (Inl f)
  have e: "extract_main P (Some key) generate w
      = \<lparr>ws = w, ended = ErrorParsing f, gemini_prompts = [build_prompt P pd]\<rparr>"
    using extract_main_rejected [where generate = generate and P = P, OF assms Inl] .
  have "\<not> (\<exists>plan. parseGeminiResponse r = Inr plan)" using Inl by simp
  then have "\<not> (\<exists>v xs. JSON_parse (json_body r) = Some v
                 \<and> get_prop v (lit ''steps'') = Inr (Val (JArray xs)))"
    using parseGeminiResponse_accepts [of r] by simp
  then have "\<not> (\<exists>v xs p. JSON_parse (json_body r) = Some v
                        \<and> get_prop v (lit ''steps'') = Inr (Val (JArray xs))
                        \<and> get_prop v (lit ''wasmOutputPath'') = Inr p
                        \<and> \<not> shown_throws p \<and> \<not> list_ex conversion_throws xs)" by blast
  then show ?thesis using e Inl by (simp add: stage2_exit_code_def)
next
  case (Inr plan)
  note e = extract_main_parsed [where generate = generate and P = P, OF assms Inr]
  obtain v p where f: "JSON_parse (json_body r) = Some v"
      "get_prop v (lit ''steps'') = Inr (Val (JArray (steps plan)))"
      "get_prop v (lit ''wasmOutputPath'') = Inr p"
      "conversion_throws (wasmOutputPath plan) \<longleftrightarrow> shown_throws p"
    using parseGeminiResponse_fields [OF Inr] by blast
  have iff: "(\<exists>v xs p. JSON_parse (json_body r) = Some v
                        \<and> get_prop v (lit ''steps'') = Inr (Val (JArray xs))
                        \<and> get_prop v (lit ''wasmOutputPath'') = Inr p
                        \<and> \<not> shown_throws p \<and> \<not> list_ex conversion_throws xs)
      \<longleftrightarrow> \<not> conversion_throws (wasmOutputPath plan) \<and> \<not> list_ex conversion_throws (steps plan)"
    using f by auto
  show ?thesis
  proof (cases "conversion_throws (wasmOutputPath plan)")
    case True
    then show ?thesis unfolding iff using e Inr by (simp add: stage2_exit_code_def)
  next
    case False
    then show ?thesis unfolding iff using e Inr by (simp add: stage2_exit_code_def)
  qed
qed

theorem extract_main_accepts_iff_witness:
  "proposal_json proposal_workspace = Some example_proposal
   \<and> commitHash example_proposal = Some (lit ''abcdef0123456789abcdef0123456789abcdef01'')
   \<and> lit ''abcdef0123456789abcdef0123456789abcdef01'' \<noteq> []
   \<and> lit ''k'' \<noteq> []
   \<and> fixed_response fenced_prose_response (build_prompt [] example_proposal)
       = Inr fenced_prose_response
   \<and> ended (extract_main [] (Some (lit ''k'')) (fixed_response fenced_prose_response)
               proposal_workspace)
       = ErrorParsing (FailedToParseLLMResponse SyntaxError)
   \<and> stage2_exit_code (ended (extract_main [] (Some (lit ''k''))
                                 (fixed_response fenced_prose_response) proposal_workspace)) = 1
   \<and> ws (extract_main [] (Some (lit ''k'')) (fixed_response fenced_prose_response)
            proposal_workspace) = proposal_workspace"
proof -
  let ?h = "lit ''abcdef0123456789abcdef0123456789abcdef01''"
  let ?run = "extract_main [] (Some (lit ''k'')) (fixed_response fenced_prose_response)
               proposal_workspace"
  have a: "proposal_json proposal_workspace = Some example_proposal"
    by (simp add: proposal_workspace_def)
  have b: "commitHash example_proposal = Some ?h" by (simp add: example_proposal_def)
  have c: "?h \<noteq> []" by (simp add: lit_def)
  have d: "lit ''k'' \<noteq> []" by (simp add: lit_def)
  have e: "fixed_response fenced_prose_response (build_prompt [] example_proposal)
       = Inr fenced_prose_response" by (simp add: fixed_response_def)
  have j: "JSON_parse (json_body fenced_prose_response) = None" by code_simp
  have p: "parseGeminiResponse fenced_prose_response = Inl (FailedToParseLLMResponse SyntaxError)"
    by code_simp
  note t = extract_main_accepts_iff
         [where generate = "fixed_response fenced_prose_response" and P = "[]", OF a b c d e]
  from t j have n: "ended ?run \<noteq> Stage2Done" by simp
  from t n have x: "stage2_exit_code (ended ?run) = 1"
    and y: "(\<exists>f. ended ?run = ErrorParsing f
               \<and> parseGeminiResponse fenced_prose_response = Inl f \<and> ws ?run = proposal_workspace)
          \<or> (\<exists>plan. ended ?run = ErrorExtracting TypeError
               \<and> parseGeminiResponse fenced_prose_response = Inr plan
               \<and> (if conversion_throws (wasmOutputPath plan)
                   then ws ?run = proposal_workspace
                   else list_ex conversion_throws (steps plan)
                        \<and> ws ?run = proposal_workspace\<lparr>build_steps_json := Some
                              \<lparr>steps = map stringified (steps plan),
                               wasmOutputPath = stringified (wasmOutputPath plan),
                               forCommit = ?h\<rparr>\<rparr>))"
    by blast+
  from y p have "ended ?run = ErrorParsing (FailedToParseLLMResponse SyntaxError)
        \<and> ws ?run = proposal_workspace" by auto
  then show ?thesis using a b c d e x by (intro conjI) simp_all
qed

text \<open>
  C4 as stated fails: the response \<open>fenced_response\<close> is wrapped in a Markdown fence, and
  the run accepts it and writes its plan.
\<close>

theorem extract_main_fenced_counterexample:
  "starts_with fence fenced_response \<and> ends_with fence fenced_response
   \<and> extract_main [] (Some (lit ''k'')) (fixed_response fenced_response) proposal_workspace
       = \<lparr>ws = \<lparr>proposal_json = Some example_proposal,
                build_steps_json = Some
                  \<lparr>steps = [JString (lit ''make'')], wasmOutputPath = JString (lit ''out.wasm''),
                   forCommit = lit ''abcdef0123456789abcdef0123456789abcdef01''\<rparr>\<rparr>,
          ended = Stage2Done,
          gemini_prompts = [build_prompt [] example_proposal]\<rparr>"
  by code_simp

text \<open>
  Two responses whose body is JSON with an array of steps, and which fail all the same.
  In the first the output path is an object with a member \<open>toString\<close>: the run ends
  with a \<open>TypeError\<close> before anything is written. In the second a step is such an
  object: the run ends with a \<open>TypeError\<close> after the plan is written.
\<close>

lemma extract_main_object_path:
  "extract_main [] (Some (lit ''k'')) (fixed_response object_path_response) proposal_workspace
     = \<lparr>ws = proposal_workspace, ended = ErrorExtracting TypeError,
        gemini_prompts = [build_prompt [] example_proposal]\<rparr>"
  by code_simp

lemma extract_main_object_step:
  "extract_main [] (Some (lit ''k'')) (fixed_response object_step_response) proposal_workspace
     = \<lparr>ws = \<lparr>proposal_json = Some example_proposal,
                build_steps_json = Some
                  \<lparr>steps = [JObject [(lit ''toString'', JNumber 1 0)]],
                   wasmOutputPath = JString (lit ''out.wasm''),
                   forCommit = lit ''abcdef0123456789abcdef0123456789abcdef01''\<rparr>\<rparr>,
          ended = ErrorExtracting TypeError,
          gemini_prompts = [build_prompt [] example_proposal]\<rparr>"
  by code_simp

text \<open>
  C2, as the code has it. For every inferrer response accepted by the plan-parsing
  stage, the output path that \<open>main\<close> writes to \<open>build-steps.json\<close>, the file that hands
  the plan to the build, is the \<open>wasmOutputPath\<close> of the response when that field is
  there and truthy, as \<open>JSON.stringify\<close> writes it: a string is written as it is, a
  number that is not finite as \<open>null\<close>. When the field is missing or falsy (\<open>null\<close>,
  \<open>false\<close>, \<open>0\<close>, the empty string) the default \<open>output.wasm\<close> is written in its place.
  When the field is a value whose conversion to a string throws, the run ends with a
  \<open>TypeError\<close> and writes no plan. (What the build script makes of the written path is
  not part of the statement.)
\<close>

theorem extract_main_output_path:
  assumes "proposal_json w = Some pd" and "commitHash pd = Some h" and "h \<noteq> []"
    and "key \<noteq> []" and "generate (build_prompt P pd) = Inr r"
    and "parseGeminiResponse r = Inr plan"
  shows "\<exists>v p. JSON_parse (json_body r) = Some v
           \<and> get_prop v (lit ''wasmOutputPath'') = Inr p
           \<and> (shown_throws p
                \<longrightarrow> ended (extract_main P (Some key) generate w) = ErrorExtracting TypeError
                    \<and> ws (extract_main P (Some key) generate w) = w)
           \<and> (\<not> shown_throws p
                \<longrightarrow> (\<exists>bs. build_steps_json (ws (extract_main P (Some key) generate w)) = Some bs
                          \<and> (truthy p \<longrightarrow> (\<exists>x. p = Val x \<and> wasmOutputPath bs = stringified x))
                          \<and> (\<not> truthy p \<longrightarrow> wasmOutputPath bs = JString (lit ''output.wasm''))
                          \<and> (\<forall>s. p = Val (JString s) \<and> s \<noteq> []
                                \<longrightarrow> wasmOutputPath bs = JString s)))"
proof -
  note e = extract_main_parsed [where generate = generate and P = P, OF assms]
  obtain v p where f: "JSON_parse (json_body r) = Some v"
      "get_prop v (lit ''wasmOutputPath'') = Inr p"
      "truthy p \<longrightarrow> p = Val (wasmOutputPath plan)"
      "\<not> truthy p \<longrightarrow> wasmOutputPath plan = JString (lit ''output.wasm'')"
      "conversion_throws (wasmOutputPath plan) \<longleftrightarrow> shown_throws p"
    using parseGeminiResponse_fields [OF assms(6)] by blast
  have t: "shown_throws p
      \<longrightarrow> ended (extract_main P (Some key) generate w) = ErrorExtracting TypeError
          \<and> ws (extract_main P (Some key) generate w) = w"
    using e f(5) by simp
  have n: "\<exists>bs. build_steps_json (ws (extract_main P (Some key) generate w)) = Some bs
             \<and> (truthy p \<longrightarrow> (\<exists>x. p = Val x \<and> wasmOutputPath bs = stringified x))
             \<and> (\<not> truthy p \<longrightarrow> wasmOutputPath bs = JString (lit ''output.wasm''))
             \<and> (\<forall>s. p = Val (JString s) \<and> s \<noteq> [] \<longrightarrow> wasmOutputPath bs = JString s)"
    if "\<not> shown_throws p"
  proof -
    let ?bs = "\<lparr>steps = map stringified (steps plan),
                wasmOutputPath = stringified (wasmOutputPath plan), forCommit = h\<rparr>"
    have w: "build_steps_json (ws (extract_main P (Some key) generate w)) = Some ?bs"
      using e f(5) that by simp
    have a: "truthy p \<longrightarrow> (\<exists>x. p = Val x \<and> wasmOutputPath ?bs = stringified x)"
      using f(3) by auto
    have b: "\<not> truthy p \<longrightarrow> wasmOutputPath ?bs = JString (lit ''output.wasm'')"
      using f(4) by simp
    have c: "\<forall>s. p = Val (JString s) \<and> s \<noteq> [] \<longrightarrow> wasmOutputPath ?bs = JString s"
    proof (intro allI impI)
      fix s assume s: "p = Val (JString s) \<and> s \<noteq> []"
      then have "truthy p" by (simp add: truthy_def)
      then have "wasmOutputPath plan = JString s" using f(3) s by simp
      then show "wasmOutputPath ?bs = JString s" by simp
    qed
    show ?thesis using w a b c by blast
  qed
  show ?thesis using f(1,2) t n by blast
qed

theorem extract_main_output_path_witness:
  "proposal_json proposal_workspace = Some example_proposal
   \<and> commitHash example_proposal = Some (lit ''abcdef0123456789abcdef0123456789abcdef01'')
   \<and> lit ''abcdef0123456789abcdef0123456789abcdef01'' \<noteq> []
   \<and> lit ''k'' \<noteq> []
   \<and> fixed_response with_path_response (build_prompt [] example_proposal)
       = Inr with_path_response
   \<and> parseGeminiResponse with_path_response
       = Inr \<lparr>steps = [JString (lit ''make'')], wasmOutputPath = JString (lit ''out.wasm'')\<rparr>
   \<and> get_prop (JObject [(lit ''steps'', JArray [JString (lit ''make'')]),
                         (lit ''wasmOutputPath'', JString (lit ''out.wasm''))])
         (lit ''wasmOutputPath'') = Inr (Val (JString (lit ''out.wasm'')))
   \<and> JSON_parse (json_body with_path_response)
       = Some (JObject [(lit ''steps'', JArray [JString (lit ''make'')]),
                        (lit ''wasmOutputPath'', JString (lit ''out.wasm''))])
   \<and> (\<exists>bs. build_steps_json (ws (extract_main [] (Some (lit ''k''))
                                      (fixed_response with_path_response) proposal_workspace))
               = Some bs
            \<and> wasmOutputPath bs = JString (lit ''out.wasm''))"
proof -
  let ?h = "lit ''abcdef0123456789abcdef0123456789abcdef01''"
  let ?plan = "\<lparr>steps = [JString (lit ''make'')], wasmOutputPath = JString (lit ''out.wasm'')\<rparr>"
  let ?V = "JObject [(lit ''steps'', JArray [JString (lit ''make'')]),
                     (lit ''wasmOutputPath'', JString (lit ''out.wasm''))]"
  let ?run = "extract_main [] (Some (lit ''k'')) (fixed_response with_path_response)
                proposal_workspace"
  have a: "proposal_json proposal_workspace = Some example_proposal"
    by (simp add: proposal_workspace_def)
  have b: "commitHash example_proposal = Some ?h" by (simp add: example_proposal_def)
  have c: "?h \<noteq> []" by (simp add: lit_def)
  have d: "lit ''k'' \<noteq> []" by (simp add: lit_def)
  have e: "fixed_response with_path_response (build_prompt [] example_proposal)
       = Inr with_path_response" by (simp add: fixed_response_def)
  have f: "parseGeminiResponse with_path_response = Inr ?plan" by code_simp
  have g: "get_prop ?V (lit ''wasmOutputPath'') = Inr (Val (JString (lit ''out.wasm'')))"
    by code_simp
  have j: "JSON_parse (json_body with_path_response) = Some ?V" by code_simp
  have o: "lit ''out.wasm'' \<noteq> []" by (simp add: lit_def)
  obtain v p where t: "JSON_parse (json_body with_path_response) = Some v"
      "get_prop v (lit ''wasmOutputPath'') = Inr p"
      "\<not> shown_throws p
         \<longrightarrow> (\<exists>bs. build_steps_json (ws ?run) = Some bs
                   \<and> (truthy p \<longrightarrow> (\<exists>x. p = Val x \<and> wasmOutputPath bs = stringified x))
                   \<and> (\<not> truthy p \<longrightarrow> wasmOutputPath bs = JString (lit ''output.wasm''))
                   \<and> (\<forall>s. p = Val (JString s) \<and> s \<noteq> [] \<longrightarrow> wasmOutputPath bs = JString s))"
    using extract_main_output_path
            [where generate = "fixed_response with_path_response" and P = "[]",
             OF a b c d e f] by blast
  have v: "v = ?V" using t(1) j by simp
  then have p: "p = Val (JString (lit ''out.wasm''))" using t(2) g by simp
  then have "\<not> shown_throws p" by (simp add: shown_throws_def)
  then obtain bs where bs: "build_steps_json (ws ?run) = Some bs"
      "\<forall>s. p = Val (JString s) \<and> s \<noteq> [] \<longrightarrow> wasmOutputPath bs = JString s"
    using t(3) by blast
  have "wasmOutputPath bs = JString (lit ''out.wasm'')" using bs(2) p o by simp
  then have k: "\<exists>bs. build_steps_json (ws ?run) = Some bs
            \<and> wasmOutputPath bs = JString (lit ''out.wasm'')" using bs(1) by blast
  show ?thesis using a b c d e f g j k by (intro conjI)
qed

text \<open>
  C2 as stated fails: a response without the field \<open>wasmOutputPath\<close> is accepted, and
  the plan that is written for the build has the path \<open>output.wasm\<close>, which the response
  never supplied.
\<close>

theorem extract_main_default_path_counterexample:
  "JSON_parse (json_body no_path_response)
     = Some (JObject [(lit ''steps'', JArray [JString (lit ''make'')])])
   \<and> get_prop (JObject [(lit ''steps'', JArray [JString (lit ''make'')])]) (lit ''wasmOutputPath'')
       = Inr Undefined
   \<and> extract_main [] (Some (lit ''k'')) (fixed_response no_path_response) proposal_workspace
       = \<lparr>ws = \<lparr>proposal_json = Some example_proposal,
                build_steps_json = Some
                  \<lparr>steps = [JString (lit ''make'')],
                   wasmOutputPath = JString (lit ''output.wasm''),
                   forCommit = lit ''abcdef0123456789abcdef0123456789abcdef01''\<rparr>\<rparr>,
          ended = Stage2Done,
          gemini_prompts = [build_prompt [] example_proposal]\<rparr>"
  by code_simp

text \<open>
  A supplied path that is not written as supplied: the number \<open>1e400\<close> is no finite
  double, and \<open>JSON.stringify\<close> writes \<open>null\<close> for it.
\<close>

lemma extract_main_huge_path:
  "build_steps_json (ws (extract_main [] (Some (lit ''k'')) (fixed_response huge_path_response)
                           proposal_workspace))
     = Some \<lparr>steps = [JString (lit ''make'')], wasmOutputPath = JNull,
             forCommit = lit ''abcdef0123456789abcdef0123456789abcdef01''\<rparr>"
proof -
  have p: "parseGeminiResponse huge_path_response
      = Inr \<lparr>steps = [JString (lit ''make'')], wasmOutputPath = JNumber 1 400\<rparr>"
    by code_simp
  have i: "number_is_infinite 1 400" by (simp add: number_is_infinite_def)
  have a: "proposal_json proposal_workspace = Some example_proposal"
    by (simp add: proposal_workspace_def)
  have b: "commitHash example_proposal
      = Some (lit ''abcdef0123456789abcdef0123456789abcdef01'')"
    by (simp add: example_proposal_def)
  have c: "lit ''abcdef0123456789abcdef0123456789abcdef01'' \<noteq> []" by (simp add: lit_def)
  have d: "lit ''k'' \<noteq> []" by (simp add: lit_def)
  have e: "fixed_response huge_path_response (build_prompt [] example_proposal)
       = Inr huge_path_response" by (simp add: fixed_response_def)
  show ?thesis
    using extract_main_parsed
            [where generate = "fixed_response huge_path_response" and P = "[]",
             OF a b c d e p] i
    by simp
qed

text \<open>
  C5. For every run in which the text of the proposal holds no 40-hex token (the
  proposal record has no commit field of its own), the first program writes the
  proposal without a commit hash, the second program ends with its message that no
  commit hash was found and the exit status 1, without invoking \<open>callGemini\<close> and
  without writing a plan, and the BuildExecutor is not started.
\<close>

theorem pipeline_no_commit:
  assumes "argv2 = Some pid" and "pid \<noteq> []"
    and "get_proposal_info pid = Inr (Some (Some p))"
    and "\<forall>i. \<not> token_at 40 (combinedText p) i"
  shows "\<exists>r2. pipeline P api_key generate build argv2 get_proposal_info w0
                 = \<lparr>stage1 = Stage1Done, stage2 = Some r2, stage3 = None\<rparr>
              \<and> ended r2 = NoCommitHash
              \<and> stage2_exit_code (ended r2) = 1
              \<and> gemini_prompts r2 = []
              \<and> build_steps_json (ws r2) = build_steps_json w0"
proof -
  have "set (token_positions 40 (combinedText p)) = {}"
    using assms(4) by (simp add: set_token_positions)
  then have none: "extractCommitHash (combinedText p) = None"
    by (simp add: extractCommitHash_eq)
  obtain w1 where f: "fetch_main argv2 get_proposal_info w0 = (w1, Stage1Done)"
      and w1: "build_steps_json w1 = build_steps_json w0"
        "\<exists>pd. proposal_json w1 = Some pd \<and> commitHash pd = None"
    using assms(1-3) none by (simp add: fetch_main_def)
  have r2: "extract_main P api_key generate w1
      = \<lparr>ws = w1, ended = NoCommitHash, gemini_prompts = []\<rparr>"
    using w1(2) by (auto simp: extract_main_def)
  have "pipeline P api_key generate build argv2 get_proposal_info w0
      = \<lparr>stage1 = Stage1Done, stage2 = Some \<lparr>ws = w1, ended = NoCommitHash, gemini_prompts = []\<rparr>,
         stage3 = None\<rparr>"
    using f r2 by (simp add: pipeline_def)
  then show ?thesis using w1(1) by (simp add: stage2_exit_code_def)
qed

theorem pipeline_no_commit_witness:
  "lit ''1'' \<noteq> []
   \<and> one_proposal (lit ''1'') = Inr (Some (Some no_commit_proposal))
   \<and> \<not> (\<exists>i. token_at 40 (combinedText no_commit_proposal) i)
   \<and> (\<exists>r2. pipeline [] (Some (lit ''k'')) (fixed_response with_path_response) started_on
               (Some (lit ''1'')) one_proposal stale_workspace
             = \<lparr>stage1 = Stage1Done, stage2 = Some r2, stage3 = None\<rparr>
            \<and> ended r2 = NoCommitHash \<and> stage2_exit_code (ended r2) = 1
            \<and> gemini_prompts r2 = []
            \<and> build_steps_json (ws r2) = build_steps_json stale_workspace)"
proof -
  have a: "lit ''1'' \<noteq> []" by (simp add: lit_def)
  have b: "one_proposal (lit ''1'') = Inr (Some (Some no_commit_proposal))"
    by (simp add: one_proposal_def)
  have "token_positions 40 (combinedText no_commit_proposal) = []" by code_simp
  then have "{i. token_at 40 (combinedText no_commit_proposal) i} = {}"
    using set_token_positions [of 40 "combinedText no_commit_proposal"] by simp
  then have c: "\<forall>i. \<not> token_at 40 (combinedText no_commit_proposal) i" by blast
  have c': "\<not> (\<exists>i. token_at 40 (combinedText no_commit_proposal) i)" using c by blast
  have d: "\<exists>r2. pipeline [] (Some (lit ''k'')) (fixed_response with_path_response) started_on
               (Some (lit ''1'')) one_proposal stale_workspace
             = \<lparr>stage1 = Stage1Done, stage2 = Some r2, stage3 = None\<rparr>
            \<and> ended r2 = NoCommitHash \<and> stage2_exit_code (ended r2) = 1
            \<and> gemini_prompts r2 = []
            \<and> build_steps_json (ws r2) = build_steps_json stale_workspace"
    using pipeline_no_commit
         [where P = "[]" and api_key = "Some (lit ''k'')"
            and generate = "fixed_response with_path_response" and build = started_on
            and get_proposal_info = one_proposal and ?w0.0 = stale_workspace,
          OF refl a b c] .
  show ?thesis using a b c' d by (intro conjI)
qed

section \<open>Properties of the commentary poster\<close>

declare json_value.simps [simp del] json_elements.simps [simp del] json_members.simps [simp del]

lemma length_skip_ws: "length (skip_ws s) \<le> length s"
  by (simp add: skip_ws_def length_dropWhile_le)

lemma skip_ws_Cons: "skip_ws s = c # r \<Longrightarrow> length r < length s"
  using length_skip_ws [of s] by simp

text \<open>A JSON value always consumes input.\<close>

lemma json_chars_shorter: "json_chars acc s = Some (k, r) \<Longrightarrow> length r < length s"
proof (induction "length s" arbitrary: acc s rule: less_induct)
  case less
  show ?case
  proof (cases s)
    case Nil
    then show ?thesis using less.prems by simp
  next
    case (Cons c cs)
    have step: "length r < length t" if "json_chars a t = Some (k, r)" "length t < length s"
      for a t using less.hyps [OF that(2) that(1)] .
    from less.prems show ?thesis
      unfolding Cons
      by (auto split: if_splits list.splits option.splits dest!: step [unfolded Cons])
  qed
qed

lemma json_frac_shorter: "json_frac s = Some (fp, r) \<Longrightarrow> length r \<le> length s"
  using length_dropWhile_le [of is_digit "tl s"]
  by (auto simp: json_frac_def split: if_splits)

lemma json_exp_shorter: "json_exp s = Some (ex, r) \<Longrightarrow> length r \<le> length s"
proof -
  assume a: "json_exp s = Some (ex, r)"
  show ?thesis
  proof (cases "starts 101 s \<or> starts 69 s")
    case False
    then show ?thesis using a by (simp add: json_exp_def)
  next
    case True
    let ?r' = "if starts 43 (tl s) \<or> starts 45 (tl s) then tl (tl s) else tl s"
    have "r = dropWhile is_digit ?r'"
      using a True by (auto simp: json_exp_def Let_def split: if_splits)
    moreover have "length (dropWhile is_digit ?r') \<le> length ?r'" by (rule length_dropWhile_le)
    moreover have "length ?r' \<le> length s" by simp
    ultimately show ?thesis by (metis order_trans)
  qed
qed

lemma json_number_shorter: "json_number s = Some (v, r) \<Longrightarrow> length r < length s"
proof -
  assume a: "json_number s = Some (v, r)"
  let ?s1 = "if starts 45 s then tl s else s"
  obtain d r0 where s1: "?s1 = d # r0" and d: "is_digit d"
    using a by (cases ?s1) (auto simp: json_number_def Let_def split: if_splits)
  let ?s2 = "if d = 48 then r0 else dropWhile is_digit ?s1"
  have "length ?s2 \<le> length r0"
    using d s1 length_dropWhile_le [of is_digit r0] by auto
  moreover obtain fp s3 ex where "json_frac ?s2 = Some (fp, s3)" "json_exp s3 = Some (ex, r)"
    using a s1 d by (auto simp: json_number_def Let_def split: if_splits option.splits)
  then have "length r \<le> length ?s2"
    using json_frac_shorter json_exp_shorter by (meson le_trans)
  moreover have "length r0 < length s"
  proof -
    have "length ?s1 \<le> length s" by simp
    then show ?thesis unfolding s1 by simp
  qed
  ultimately show ?thesis by linarith
qed

lemma json_elements_shorter:
  "json_elements acc s = Some (v, r) \<Longrightarrow> length r < length s"
proof (induction "length s" arbitrary: acc s rule: less_induct)
  case less
  have step: "length r < length t" if "json_elements a t = Some (v, r)" "length t < length s"
    for a t using less.hyps [OF that(2) that(1)] .
  from less.prems show ?case
    apply (subst (asm) json_elements.simps)
    apply (auto split: list.splits if_splits option.splits prod.splits dest!: skip_ws_Cons)
    apply (drule step)
     apply linarith
    apply linarith
    done
qed

lemma json_members_shorter:
  "json_members acc s = Some (v, r) \<Longrightarrow> length r < length s"
proof (induction "length s" arbitrary: acc s rule: less_induct)
  case less
  have step: "length r < length t" if "json_members a t = Some (v, r)" "length t < length s"
    for a t using less.hyps [OF that(2) that(1)] .
  from less.prems show ?case
    apply (subst (asm) json_members.simps)
    apply (auto split: list.splits if_splits option.splits prod.splits dest!: skip_ws_Cons)
    apply (drule step)
     apply linarith
    apply linarith
    done
qed

lemma json_value_shorter: "json_value s = Some (v, r) \<Longrightarrow> length r < length s"
proof -
  assume a: "json_value s = Some (v, r)"
  obtain c t where ct: "skip_ws s = c # t"
    using a by (subst (asm) json_value.simps) (auto split: list.splits)
  have lt: "length t < length s" using ct by (rule skip_ws_Cons)
  have tl: "length (tl (skip_ws t)) \<le> length t"
    using length_skip_ws [of t] by simp
  have st: "starts x (skip_ws t) \<Longrightarrow> length (tl (skip_ws t)) < length s" for x
    using length_skip_ws [of t] lt by (cases "skip_ws t") (auto simp: starts_def)
  from a show ?thesis
    apply (subst (asm) json_value.simps)
    apply (simp only: ct list.case)
    apply (auto split: if_splits option.splits prod.splits
        dest!: json_members_shorter json_elements_shorter json_chars_shorter json_number_shorter
        simp: st)
    using lt length_skip_ws [of t] apply arith+
    done
qed

lemma json_members_object:
  "json_members acc s = Some (v, r) \<Longrightarrow> \<exists>ms. v = JObject ms"
proof (induction "length s" arbitrary: acc s v r rule: less_induct)
  case less
  from less.prems show ?case
    apply (subst (asm) json_members.simps)
    apply (auto split: list.splits if_splits option.splits prod.splits dest!: skip_ws_Cons)
    apply (erule less.hyps [rotated])
    apply linarith
    done
qed

lemma JSON_parse_brace_object:
  assumes "JSON_parse (123 # t) = Some v"
  shows "\<exists>ms. v = JObject ms"
proof -
  have "skip_ws (123 # t) = 123 # t" by (simp add: skip_ws_def is_json_ws_def)
  then obtain r where "json_value (123 # t) = Some (v, r)"
    using assms by (auto simp: JSON_parse_def split: option.splits if_splits)
  then show ?thesis
    using \<open>skip_ws (123 # t) = 123 # t\<close>
    by (subst (asm) json_value.simps) (auto split: if_splits dest: json_members_object)
qed

lemma match_braces_starts:
  assumes "match_braces text = Some m"
  shows "\<exists>t. m = 123 # t"
proof -
  let ?s = "dropWhile (\<lambda>c. c \<noteq> 123) text"
  have in_s: "125 \<in> set ?s" and m: "m = rev (dropWhile (\<lambda>c. c \<noteq> 125) (rev ?s))"
    using assms by (auto simp: match_braces_def Let_def split: if_splits)
  have "?s \<noteq> []" using in_s by (metis empty_iff empty_set)
  then obtain t where s: "?s = 123 # t"
    by (metis (mono_tags, lifting) hd_dropWhile list.collapse)
  have "rev ?s = takeWhile (\<lambda>c. c \<noteq> 125) (rev ?s) @ dropWhile (\<lambda>c. c \<noteq> 125) (rev ?s)"
    by simp
  then have "?s = m @ rev (takeWhile (\<lambda>c. c \<noteq> 125) (rev ?s))"
    unfolding m by (metis rev_append rev_rev_ident)
  moreover have "m \<noteq> []" using in_s m by (simp add: dropWhile_eq_Nil_conv)
  ultimately show ?thesis using s by (cases m) auto
qed

lemma extractJsonFromText_object:
  "extractJsonFromText s = Some doc \<Longrightarrow> \<exists>ms. doc = JObject ms"
  by (auto simp: extractJsonFromText_def split: option.splits sum.splits if_splits
      dest!: match_braces_starts dest: JSON_parse_brace_object)

lemma scan_items_step:
  assumes "scan_items (item # items) c = Inr (Some doc)"
  shows "scan_items items c = Inr (Some doc)
         \<or> (\<exists>s found. extractJsonFromText s = Some found
               \<and> scan_items items (Some found) = Inr (Some doc))"
proof -
  obtain ty where ty: "get_prop item (lit ''type'') = Inr ty"
    using assms by (cases "get_prop item (lit ''type'')") auto
  show ?thesis
  proof (cases "ty \<noteq> Val (JString (lit ''text''))")
    case True
    then show ?thesis using assms ty by simp
  next
    case False
    then obtain tx where tx: "get_prop item (lit ''text'') = Inr tx"
      using assms ty by (cases "get_prop item (lit ''text'')") auto
    show ?thesis
    proof (cases "truthy tx")
      case nt: False
      then show ?thesis using assms ty tx False by simp
    next
      case True
      then obtain s where s: "tx = Val (JString s)"
        using assms ty tx False by (auto split: jsval.splits json.splits)
      show ?thesis
        using assms ty tx False True s by (cases "extractJsonFromText s") auto
    qed
  qed
qed

lemma scan_items_object:
  "scan_items items c = Inr (Some doc) \<Longrightarrow> (\<forall>d. c = Some d \<longrightarrow> (\<exists>ms. d = JObject ms))
     \<Longrightarrow> \<exists>ms. doc = JObject ms"
proof (induction items arbitrary: c)
  case Nil
  then show ?case by simp
next
  case (Cons item items)
  from scan_items_step [OF Cons.prems(1)] show ?case
  proof
    assume "scan_items items c = Inr (Some doc)"
    then show ?thesis using Cons.IH Cons.prems(2) by blast
  next
    assume "\<exists>s found. extractJsonFromText s = Some found
               \<and> scan_items items (Some found) = Inr (Some doc)"
    then obtain s found where f: "extractJsonFromText s = Some found"
      "scan_items items (Some found) = Inr (Some doc)" by blast
    have "\<forall>d. Some found = Some d \<longrightarrow> (\<exists>ms. d = JObject ms)"
      using extractJsonFromText_object [OF f(1)] by simp
    then show ?thesis using Cons.IH [OF f(2)] by blast
  qed
qed

lemma read_stats_commentary: "read_stats turn out = Inr out1 \<Longrightarrow> commentary out1 = commentary out"
  by (auto simp: read_stats_def split: sum.splits if_splits prod.splits)

lemma scan_turns_step:
  assumes "scan_turns (turn # rest) out = Inr res"
  shows "\<exists>out2. scan_turns rest out2 = Inr res
           \<and> (commentary out2 = commentary out
               \<or> (\<exists>items. scan_items items (commentary out) = Inr (commentary out2)))"
proof -
  obtain out1 where o1: "read_stats turn out = Inr out1"
    using assms by (cases "read_stats turn out") auto
  have c1: "commentary out1 = commentary out" using o1 by (rule read_stats_commentary)
  obtain ty where ty: "get_prop turn (lit ''type'') = Inr ty"
    using assms o1 by (cases "get_prop turn (lit ''type'')") auto
  show ?thesis
  proof (cases "ty \<noteq> Val (JString (lit ''assistant''))")
    case True
    then show ?thesis using assms o1 ty c1 by auto
  next
    case False
    then obtain content where co: "message_content turn = Inr content"
      using assms o1 ty by (cases "message_content turn") auto
    show ?thesis
    proof (cases "truthy content")
      case nt: False
      then show ?thesis using assms o1 ty co False c1 by auto
    next
      case True
      then obtain cv where cv: "content = Val cv" by (cases content) (auto simp: truthy_def)
      obtain items where it: "iterate cv = Inr items"
        using assms o1 ty co False True cv by (cases "iterate cv") auto
      obtain c where c: "scan_items items (commentary out1) = Inr c"
        using assms o1 ty co False True cv it
        by (cases "scan_items items (commentary out1)") auto
      have "scan_turns rest (out1\<lparr>commentary := c\<rparr>) = Inr res"
        using assms o1 ty co False True cv it c by simp
      then show ?thesis using c c1 by (intro exI [of _ "out1\<lparr>commentary := c\<rparr>"]) auto
    qed
  qed
qed

lemma scan_turns_object:
  "scan_turns ts out = Inr res \<Longrightarrow> (\<forall>d. commentary out = Some d \<longrightarrow> (\<exists>ms. d = JObject ms))
     \<Longrightarrow> commentary res = Some doc \<Longrightarrow> \<exists>ms. doc = JObject ms"
proof (induction ts arbitrary: out)
  case Nil
  then show ?case by simp
next
  case (Cons turn rest)
  from scan_turns_step [OF Cons.prems(1)] obtain out2 where o2:
    "scan_turns rest out2 = Inr res"
    "commentary out2 = commentary out
       \<or> (\<exists>items. scan_items items (commentary out) = Inr (commentary out2))" by blast
  have "\<forall>d. commentary out2 = Some d \<longrightarrow> (\<exists>ms. d = JObject ms)"
    using o2(2) Cons.prems(2) scan_items_object by metis
  then show ?case using Cons.IH [OF o2(1) _ Cons.prems(3)] by blast
qed

lemma parseClaudeOutput_object:
  assumes "parseClaudeOutput file = Inr out" "commentary out = Some doc"
  shows "\<exists>ms. doc = JObject ms"
proof -
  obtain xs where "scan_turns xs \<lparr>commentary = None, cost = JNumber 0 0, duration = JNumber 0 0,
                       turns = JNumber 0 0\<rparr> = Inr out"
    using assms(1) by (auto simp: parseClaudeOutput_def split: option.splits sum.splits)
  then show ?thesis using scan_turns_object assms(2) by fastforce
qed

lemma map_of_rev_Cons:
  "map_of (rev (a # xs)) k = (case map_of (rev xs) k of Some y \<Rightarrow> Some y | None \<Rightarrow> map_of [a] k)"
  by (cases a) (simp add: map_of_append map_add_def split: option.splits)

lemma overwritten_keys:
  "fst ` set (map (\<lambda>(k', x). if k' = k then (k', v) else (k', x)) ms) = fst ` set ms"
  by (induction ms) (auto split: if_splits)

lemma map_of_overwritten:
  "k \<in> fst ` set ms \<Longrightarrow>
   map_of (rev (map (\<lambda>(k', x). if k' = k then (k', v) else (k', x)) ms)) k = Some v"
proof (induction ms)
  case Nil
  then show ?case by simp
next
  case (Cons a ms)
  let ?f = "\<lambda>(k', x). if k' = k then (k', v) else (k', x)"
  obtain k' x where a: "a = (k', x)" by (cases a)
  have step: "map_of (rev (map ?f (a # ms))) k
      = (case map_of (rev (map ?f ms)) k of Some y \<Rightarrow> Some y | None \<Rightarrow> map_of [?f a] k)"
    unfolding list.map by (rule map_of_rev_Cons)
  show ?case
  proof (cases "k \<in> fst ` set ms")
    case True
    then have "map_of (rev (map ?f ms)) k = Some v" by (rule Cons.IH)
    then show ?thesis unfolding step by simp
  next
    case False
    then have "k' = k" using Cons.prems a by auto
    then have "map_of [?f a] k = Some v" by (simp add: a)
    moreover have "k \<notin> fst ` set (rev (map ?f ms))"
      using False overwritten_keys [of k v ms] by simp
    then have "map_of (rev (map ?f ms)) k = None" by (simp only: map_of_eq_None_iff simp_thms)
    ultimately show ?thesis unfolding step by simp
  qed
qed

lemma get_set_prop:
  "get_prop (set_prop (JObject ms) k v) k = Inr (Val v)"
  by (simp add: get_prop_def set_prop_def map_of_overwritten map_of_append)

text \<open>
  C10, as the code has it. For every commentary document whose embedded \<open>proposal_id\<close>
  differs from the proposal identifier given on the command line and can be shown in the
  warning (it is not an object or array whose conversion to a string throws),
  \<open>postCommentary\<close> does not fail over the difference: it overwrites the document's
  \<open>proposal_id\<close> with the command-line value and posts the payload, whose \<open>proposal_id\<close>
  equals the command-line argument; the run then ends well when the portal answers
  \<open>ok\<close> and the result can be logged.
\<close>

theorem postCommentary_overwrites_id:
  assumes "theId \<noteq> []" and "portalUrl \<noteq> []" and "secret \<noteq> []"
    and "parseClaudeOutput file = Inr out" and "commentary out = Some doc"
    and "get_prop doc (lit ''proposal_id'') = Inr embedded"
    and "embedded \<noteq> Val (JString theId)" and "\<not> shown_throws embedded"
    and "r = postCommentary (Some theId) (Some portalUrl) (Some secret) file fetch"
  shows "\<exists>req c. posted r = [req]
           \<and> to_url req = portalUrl @ lit ''/api/proposals/'' @ theId @ lit ''/commentary''
           \<and> get_prop (payload req) (lit ''commentary'') = Inr (Val c)
           \<and> get_prop c (lit ''proposal_id'') = Inr (Val (JString theId))
           \<and> (\<forall>resp. fetch req = Inr resp \<and> ok resp \<and> log_result (body_text resp) out = Inr ()
                 \<longrightarrow> post_end r = PostedOk)"
proof -
  obtain ms where ms: "doc = JObject ms"
    using parseClaudeOutput_object [OF assms(4,5)] by blast
  let ?doc = "set_prop doc (lit ''proposal_id'') (JString theId)"
  let ?req = "\<lparr>to_url = portalUrl @ lit ''/api/proposals/'' @ theId @ lit ''/commentary'',
               authorization = lit ''Bearer '' @ secret,
               payload = JObject
                 [(lit ''commentary'', ?doc),
                  (lit ''metadata'', JObject
                     [(lit ''cost_usd'', cost out), (lit ''duration_ms'', duration out),
                      (lit ''turns'', turns out)])]\<rparr>"
  have r: "r = (case fetch ?req of
                  Inl e \<Rightarrow> \<lparr>post_end = FailedToPost e, posted = [?req]\<rparr>
                | Inr resp \<Rightarrow>
                    if \<not> ok resp then
                      \<lparr>post_end = FailedToPost (Error ''HTTP error''), posted = [?req]\<rparr>
                    else
                      (case log_result (body_text resp) out of
                         Inl e \<Rightarrow> \<lparr>post_end = FailedToPost e, posted = [?req]\<rparr>
                       | Inr u \<Rightarrow> \<lparr>post_end = PostedOk, posted = [?req]\<rparr>))"
    using assms by (simp add: postCommentary_def Let_def)
  have p: "posted r = [?req]"
    unfolding r by (auto split: sum.splits)
  have ne: "lit ''commentary'' \<noteq> lit ''metadata''" by (simp add: lit_def)
  have g: "get_prop (payload ?req) (lit ''commentary'') = Inr (Val ?doc)"
    using ne by (simp add: get_prop_def)
  have i: "get_prop ?doc (lit ''proposal_id'') = Inr (Val (JString theId))"
    unfolding ms by (rule get_set_prop)
  have e: "\<forall>resp. fetch ?req = Inr resp \<and> ok resp \<and> log_result (body_text resp) out = Inr ()
                 \<longrightarrow> post_end r = PostedOk"
    unfolding r by auto
  show ?thesis using p g i e by (intro exI [of _ ?req] exI [of _ ?doc]) simp
qed

theorem postCommentary_overwrites_id_witness:
  "lit ''123'' \<noteq> [] \<and> lit ''https://p'' \<noteq> [] \<and> lit ''s'' \<noteq> []
   \<and> parseClaudeOutput (Some (output_file other_id_doc))
       = Inr \<lparr>commentary = Some (JObject [(lit ''title'', JString (lit ''T'')),
                                           (lit ''overall_summary'', JString (lit ''S'')),
                                           (lit ''proposal_id'', JString (lit ''999''))]),
              cost = JNumber 25 (- 2), duration = JNumber 9000 0, turns = JNumber 3 0\<rparr>
   \<and> get_prop (JObject [(lit ''title'', JString (lit ''T'')),
                        (lit ''overall_summary'', JString (lit ''S'')),
                        (lit ''proposal_id'', JString (lit ''999''))]) (lit ''proposal_id'')
       = Inr (Val (JString (lit ''999'')))
   \<and> Val (JString (lit ''999'')) \<noteq> Val (JString (lit ''123''))
   \<and> \<not> shown_throws (Val (JString (lit ''999'')))
   \<and> (\<exists>req c. posted (postCommentary (Some (lit ''123'')) (Some (lit ''https://p''))
                          (Some (lit ''s'')) (Some (output_file other_id_doc)) portal_ok) = [req]
          \<and> get_prop (payload req) (lit ''commentary'') = Inr (Val c)
          \<and> get_prop c (lit ''proposal_id'') = Inr (Val (JString (lit ''123''))))
   \<and> post_end (postCommentary (Some (lit ''123'')) (Some (lit ''https://p''))
                  (Some (lit ''s'')) (Some (output_file other_id_doc)) portal_ok) = PostedOk"
proof -
  let ?doc = "JObject [(lit ''title'', JString (lit ''T'')),
                       (lit ''overall_summary'', JString (lit ''S'')),
                       (lit ''proposal_id'', JString (lit ''999''))]"
  let ?out = "\<lparr>commentary = Some ?doc, cost = JNumber 25 (- 2), duration = JNumber 9000 0,
               turns = JNumber 3 0\<rparr>"
  let ?r = "postCommentary (Some (lit ''123'')) (Some (lit ''https://p''))
              (Some (lit ''s'')) (Some (output_file other_id_doc)) portal_ok"
  have a: "lit ''123'' \<noteq> []" "lit ''https://p'' \<noteq> []" "lit ''s'' \<noteq> []"
    by (simp_all add: lit_def)
  have b: "parseClaudeOutput (Some (output_file other_id_doc)) = Inr ?out" by code_simp
  have c: "commentary ?out = Some ?doc" by simp
  have d: "get_prop ?doc (lit ''proposal_id'') = Inr (Val (JString (lit ''999'')))" by code_simp
  have e: "Val (JString (lit ''999'')) \<noteq> Val (JString (lit ''123''))" by code_simp
  have f: "\<not> shown_throws (Val (JString (lit ''999'')))" by (simp add: shown_throws_def)
  from postCommentary_overwrites_id
         [where fetch = portal_ok, OF a(1) a(2) a(3) b c d e f refl]
  obtain req c where rc: "posted ?r = [req]"
    "get_prop (payload req) (lit ''commentary'') = Inr (Val c)"
    "get_prop c (lit ''proposal_id'') = Inr (Val (JString (lit ''123'')))"
    "\<forall>resp. portal_ok req = Inr resp \<and> ok resp \<and> log_result (body_text resp) ?out = Inr ()
       \<longrightarrow> post_end ?r = PostedOk" by blast
  have l: "log_result (body_text (projr (portal_ok req))) ?out = Inr ()"
    unfolding portal_ok_def by code_simp
  have "portal_ok req = Inr (projr (portal_ok req)) \<and> ok (projr (portal_ok req))"
    by (simp add: portal_ok_def)
  then have g: "post_end ?r = PostedOk" using rc(4) l by blast
  have h: "\<exists>req c. posted ?r = [req]
          \<and> get_prop (payload req) (lit ''commentary'') = Inr (Val c)
          \<and> get_prop c (lit ''proposal_id'') = Inr (Val (JString (lit ''123'')))"
    using rc(1-3) by blast
  show ?thesis using a b d e f g h by (intro conjI)
qed

text \<open>
  C10 as stated fails: the document \<open>object_id_doc\<close> has a \<open>proposal_id\<close> that differs
  from the command-line argument \<open>123\<close>, and \<open>postCommentary\<close> fails with a \<open>TypeError\<close>
  (thrown while the warning is put together) and posts nothing.
\<close>

theorem postCommentary_object_id_counterexample:
  "parseClaudeOutput (Some (output_file object_id_doc))
     = Inr \<lparr>commentary = Some (JObject [(lit ''title'', JString (lit ''T'')),
                                         (lit ''overall_summary'', JString (lit ''S'')),
                                         (lit ''proposal_id'',
                                          JObject [(lit ''toString'', JNumber 1 0)])]),
            cost = JNumber 25 (- 2), duration = JNumber 9000 0, turns = JNumber 3 0\<rparr>
   \<and> postCommentary (Some (lit ''123'')) (Some (lit ''https://p'')) (Some (lit ''s''))
        (Some (output_file object_id_doc)) portal_ok
       = \<lparr>post_end = FailedToPost TypeError, posted = []\<rparr>"
  by code_simp


end
